theory Spec2Isabelle
  imports Main "HOL-Library.Sublist"
begin

section \<open>The Clang interfaces the tool is written against\<close>

text \<open>
  Qt4To5.cpp is a Clang tool: every callback receives a match (named AST nodes and a
  SourceManager) and registers text replacements. The parts of Clang that the callbacks
  call are modelled here, as far as the callbacks use them.

  A source location is invalid, a location in a file (a FileID and a byte offset), or a
  location inside a macro expansion, which carries its own decomposition (the FileID of
  the expansion, which has no file entry, and an offset there) and the location where
  its token is spelled. The FileID 0 is the invalid one. A location carries its own
  decomposition, so the functions on locations take no SourceManager.
\<close>

type_synonym FileID = nat

datatype SourceLocation =
    InvalidLoc
  | FileLoc FileID int
  | MacroLoc FileID int SourceLocation

fun isValid :: "SourceLocation \<Rightarrow> bool" where
  "isValid InvalidLoc = False"
| "isValid (FileLoc f n) = True"
| "isValid (MacroLoc f n sp) = True"

fun getSpellingLoc :: "SourceLocation \<Rightarrow> SourceLocation" where
  "getSpellingLoc InvalidLoc = InvalidLoc"
| "getSpellingLoc (FileLoc f n) = FileLoc f n"
| "getSpellingLoc (MacroLoc f n sp) = getSpellingLoc sp"

fun getDecomposedLoc :: "SourceLocation \<Rightarrow> FileID \<times> int" where
  "getDecomposedLoc InvalidLoc = (0, 0)"
| "getDecomposedLoc (FileLoc f n) = (f, n)"
| "getDecomposedLoc (MacroLoc f n sp) = (f, n)"

definition getFileID :: "SourceLocation \<Rightarrow> FileID" where
  "getFileID loc = fst (getDecomposedLoc loc)"

definition getFileOffset :: "SourceLocation \<Rightarrow> int" where
  "getFileOffset loc = snd (getDecomposedLoc loc)"

text \<open>
  \<^verbatim>\<open>getLocWithOffset\<close> moves a location by a signed number of bytes. The tool calls it on
  spelling locations it has checked to be valid.
\<close>

fun getLocWithOffset :: "SourceLocation \<Rightarrow> int \<Rightarrow> SourceLocation" where
  "getLocWithOffset InvalidLoc d = InvalidLoc"
| "getLocWithOffset (FileLoc f n) d = FileLoc f (n + d)"
| "getLocWithOffset (MacroLoc f n sp) d = MacroLoc f (n + d) sp"

text \<open>
  The SourceManager: the name of the file entry of each FileID (none for a FileID without
  a file entry), the contents of its buffer (none when the buffer cannot be loaded) and,
  standing for the lexer, the length of the token that starts at an offset of a file.
\<close>

type_synonym FileEntry = string

record SourceManager =
  FileEntries :: "FileID \<rightharpoonup> FileEntry"
  Buffers :: "FileID \<rightharpoonup> string"
  MeasureTokenLength :: "FileID \<Rightarrow> int \<Rightarrow> nat"

definition getFileEntryForID :: "SourceManager \<Rightarrow> FileID \<Rightarrow> FileEntry option" where
  "getFileEntryForID sm fid = FileEntries sm fid"

text \<open>
  \<^verbatim>\<open>Lexer::getLocForEndOfToken(Loc, 0, SM, LangOptions())\<close>: the location just past the
  token that starts at a file location. It is called on spelling locations only.
\<close>

fun getLocForEndOfToken :: "SourceManager \<Rightarrow> SourceLocation \<Rightarrow> SourceLocation" where
  "getLocForEndOfToken sm InvalidLoc = InvalidLoc"
| "getLocForEndOfToken sm (FileLoc f n) = FileLoc f (n + int (MeasureTokenLength sm f n))"
| "getLocForEndOfToken sm (MacroLoc f n sp) = InvalidLoc"

text \<open>
  Everything that ends a callback other than by returning: a null pointer dereferenced,
  \<^verbatim>\<open>std::out_of_range\<close> thrown by \<^verbatim>\<open>std::string::replace\<close>, a read outside a buffer, and the
  assertion of \<^verbatim>\<open>getParamDecl\<close>.
\<close>

datatype error = NullPointer | OutOfRange | BufferOverrun | IllegalParam

text \<open>
  \<^verbatim>\<open>getCharacterData\<close> returns a pointer into the buffer of the location's file, modelled
  as the buffer and the offset; the result is \<open>None\<close> where Clang sets \<^verbatim>\<open>Invalid\<close>.
  \<^verbatim>\<open>std::string(Text, n)\<close> copies \<open>n\<close> bytes from the pointer.
\<close>

type_synonym CharPtr = "string \<times> int"

definition getCharacterData :: "SourceManager \<Rightarrow> SourceLocation \<Rightarrow> CharPtr option" where
  "getCharacterData sm loc =
     (case Buffers sm (getFileID loc) of
        None \<Rightarrow> None
      | Some buf \<Rightarrow> Some (buf, getFileOffset loc))"

fun std_string :: "CharPtr \<Rightarrow> int \<Rightarrow> error + string" where
  "std_string (buf, off) n =
     (if 0 \<le> off \<and> 0 \<le> n \<and> off + n \<le> int (length buf)
      then Inr (take (nat n) (drop (nat off) buf))
      else Inl BufferOverrun)"

text \<open>
  The column of a location in its line, counted from 1: Clang scans back from the offset
  to the previous line feed or carriage return. It sets \<^verbatim>\<open>Invalid\<close> when the buffer
  cannot be loaded or the offset is past its end.
\<close>

fun line_start :: "string \<Rightarrow> nat \<Rightarrow> nat" where
  "line_start buf 0 = 0"
| "line_start buf (Suc k) =
     (if buf ! k = CHR 0x0A \<or> buf ! k = CHR 0x0D then Suc k else line_start buf k)"

definition getSpellingColumnNumber :: "SourceManager \<Rightarrow> SourceLocation \<Rightarrow> nat option" where
  "getSpellingColumnNumber sm loc =
     (case Buffers sm (getFileID loc) of
        None \<Rightarrow> None
      | Some buf \<Rightarrow>
          if getFileOffset loc < 0 \<or> int (length buf) < getFileOffset loc then None
          else Some (nat (getFileOffset loc) - line_start buf (nat (getFileOffset loc)) + 1))"

text \<open>An AST node, as far as the tool reads it: \<^verbatim>\<open>getLocStart()\<close> and \<^verbatim>\<open>getLocEnd()\<close>.\<close>

record Node =
  LocStart :: SourceLocation
  LocEnd :: SourceLocation

section \<open>getText\<close>

text \<open>
  \<^verbatim>\<open>getText(SourceManager, Node)\<close>: the text that makes up the node, the empty string
  if it cannot be found.
\<close>

definition getText :: "SourceManager \<Rightarrow> Node \<Rightarrow> error + string" where
  "getText sm node =
     (let StartSpellingLocation = getSpellingLoc (LocStart node);
          EndSpellingLocation = getSpellingLoc (LocEnd node)
      in if \<not> isValid StartSpellingLocation \<or> \<not> isValid EndSpellingLocation then Inr []
         else
           (case getCharacterData sm StartSpellingLocation of
              None \<Rightarrow> Inr []
            | Some Text \<Rightarrow>
                (let Start = getDecomposedLoc StartSpellingLocation;
                     End = getDecomposedLoc (getLocForEndOfToken sm EndSpellingLocation)
                 in if fst Start \<noteq> fst End then Inr []
                    else if snd End < snd Start then Inr []
                    else std_string Text (snd End - snd Start))))"

section \<open>Replacements\<close>

text \<open>
  Clang's \<^verbatim>\<open>tooling::Replacement\<close>: a file path, the offset and length of the replaced
  range, and the text put there. The tool builds one from a location and a length, from
  a character range, and from a node (the token range of the node). As in Clang, the
  range is read from the spelling locations, its size is \<open>-1\<close> when its two ends are in
  different files, and a token range ends after the token that starts at its end.
\<close>

record Replacement =
  FilePath :: string
  Offset :: int
  Length :: int
  ReplacementText :: string

definition setFromSourceLocation ::
    "SourceManager \<Rightarrow> SourceLocation \<Rightarrow> int \<Rightarrow> string \<Rightarrow> Replacement" where
  "setFromSourceLocation sm Start len txt =
     \<lparr> FilePath = (case getFileEntryForID sm (fst (getDecomposedLoc Start)) of
                     None \<Rightarrow> ''invalid-location''
                   | Some Entry \<Rightarrow> Entry),
       Offset = snd (getDecomposedLoc Start),
       Length = len,
       ReplacementText = txt \<rparr>"

definition getRangeSize ::
    "SourceManager \<Rightarrow> SourceLocation \<Rightarrow> SourceLocation \<Rightarrow> bool \<Rightarrow> int" where
  "getRangeSize sm Begin End isTokenRange =
     (let SpellingBegin = getSpellingLoc Begin;
          SpellingEnd = getSpellingLoc End;
          Start = getDecomposedLoc SpellingBegin;
          EndD = getDecomposedLoc SpellingEnd
      in if fst Start \<noteq> fst EndD then -1
         else (if isTokenRange
               then snd EndD + int (MeasureTokenLength sm (fst EndD) (snd EndD))
               else snd EndD) - snd Start)"

definition setFromSourceRange ::
    "SourceManager \<Rightarrow> SourceLocation \<Rightarrow> SourceLocation \<Rightarrow> bool \<Rightarrow> string \<Rightarrow> Replacement" where
  "setFromSourceRange sm Begin End isTokenRange txt =
     setFromSourceLocation sm (getSpellingLoc Begin) (getRangeSize sm Begin End isTokenRange) txt"

text \<open>\<^verbatim>\<open>Replacement(SM, Start, Length, Text)\<close>\<close>

definition Replacement_at :: "SourceManager \<Rightarrow> SourceLocation \<Rightarrow> int \<Rightarrow> string \<Rightarrow> Replacement" where
  "Replacement_at sm Start len txt = setFromSourceLocation sm Start len txt"

text \<open>\<^verbatim>\<open>Replacement(SM, CharSourceRange, Text)\<close>, for a range built with \<^verbatim>\<open>setBegin\<close> and \<^verbatim>\<open>setEnd\<close> (a character range)\<close>

definition Replacement_range ::
    "SourceManager \<Rightarrow> SourceLocation \<Rightarrow> SourceLocation \<Rightarrow> string \<Rightarrow> Replacement" where
  "Replacement_range sm Begin End txt = setFromSourceRange sm Begin End False txt"

text \<open>\<^verbatim>\<open>Replacement(SM, Node, Text)\<close>\<close>

definition Replacement_node :: "SourceManager \<Rightarrow> Node \<Rightarrow> string \<Rightarrow> Replacement" where
  "Replacement_node sm node txt = setFromSourceRange sm (LocStart node) (LocEnd node) True txt"

text \<open>
  What a replacement does to the contents of its file when it is applied: the bytes of
  its range are replaced by its text.
\<close>

definition applyReplacement :: "Replacement \<Rightarrow> string \<Rightarrow> string" where
  "applyReplacement r buf =
     take (nat (Offset r)) buf @ ReplacementText r @ drop (nat (Offset r) + nat (Length r)) buf"

section \<open>Strings\<close>

text \<open>
  \<^verbatim>\<open>std::string::find\<close> (and \<^verbatim>\<open>StringRef::find\<close>): the first position where the pattern
  occurs, \<open>None\<close> for \<^verbatim>\<open>npos\<close>. \<^verbatim>\<open>std::string::replace(pos, len, str)\<close> throws
  \<^verbatim>\<open>std::out_of_range\<close> when \<open>pos\<close> is past the end, as \<^verbatim>\<open>npos\<close> is.
\<close>

fun string_find :: "string \<Rightarrow> string \<Rightarrow> nat option" where
  "string_find pat [] = (if pat = [] then Some 0 else None)"
| "string_find pat (c # cs) =
     (if prefix pat (c # cs) then Some 0 else map_option Suc (string_find pat cs))"

definition string_replace :: "string \<Rightarrow> nat option \<Rightarrow> nat \<Rightarrow> string \<Rightarrow> error + string" where
  "string_replace s pos len str =
     (case pos of
        None \<Rightarrow> Inl OutOfRange
      | Some p \<Rightarrow>
          if length s < p then Inl OutOfRange
          else Inr (take p s @ str @ drop (p + len) s))"

text \<open>\<^verbatim>\<open>StringRef::startswith\<close>\<close>

definition startswith :: "string \<Rightarrow> string \<Rightarrow> bool" where
  "startswith s pre = prefix pre s"

section \<open>The command line options\<close>

record Options =
  SourceDir :: string
  BuildPath :: string
  CreateIfdefs :: bool
  PortQMetaMethodSignature :: bool
  PortQtEscape :: bool
  PortAtomics :: bool
  RenameEnum :: string
  RenameMethod_Class :: string
  Rename_Old :: string
  Rename_New :: string
  Port_QImage_text :: bool
  Port_QAbstractItemView_dataChanged :: bool
  SourcePaths :: "string list"

section \<open>insertIfdef\<close>

text \<open>
  \<^verbatim>\<open>Utils::AddReplacement(Entry, Replacement, Replace)\<close> is declared in Utils.h, which is
  not among the sources. Every function that registers an edit takes it as the parameter
  \<open>AddReplacement\<close>, a function from the file entry (none for a null pointer), the
  replacement and the replacement map to the new replacement map; what is proved holds
  for every such function.
\<close>

type_synonym 'r AddReplacementFn = "FileEntry option \<Rightarrow> Replacement \<Rightarrow> 'r \<Rightarrow> 'r"

text \<open>
  The loop \<^verbatim>\<open>while (Text[eol] != '\n') ++eol;\<close> of \<^verbatim>\<open>insertIfdef\<close>. The buffer ends with a
  NUL, which is no line feed, so the loop that reaches the end of the buffer goes on to
  read outside it.
\<close>

function scan_eol :: "CharPtr \<Rightarrow> nat \<Rightarrow> error + nat" where
  "scan_eol (buf, off) eol =
     (if off + int eol < 0 \<or> int (length buf) \<le> off + int eol then Inl BufferOverrun
      else if buf ! nat (off + int eol) = CHR 0x0A then Inr eol
      else scan_eol (buf, off) (Suc eol))"
  by pat_completeness auto
termination
  by (relation "measure (\<lambda>((buf, off), eol). nat (int (length buf) - off - int eol))") auto

text \<open>
  \<^verbatim>\<open>insertIfdef(SourceManager, Node, Replace)\<close>. The code does not test the \<^verbatim>\<open>Invalid\<close> that
  \<^verbatim>\<open>getCharacterData\<close> sets for the start of the line; that branch is not reached, since
  the column number is invalid whenever the buffer is (\<open>insertIfdef_buffer_present\<close>).
\<close>

definition insertIfdef ::
    "'r AddReplacementFn \<Rightarrow> SourceManager \<Rightarrow> Node \<Rightarrow> 'r \<Rightarrow> error + 'r" where
  "insertIfdef AddReplacement sm node Replace =
     (let StartSpellingLocation = getSpellingLoc (LocStart node);
          EndSpellingLocation = getSpellingLoc (LocEnd node)
      in if \<not> isValid StartSpellingLocation \<or> \<not> isValid EndSpellingLocation then Inr Replace
         else
           (case getSpellingColumnNumber sm StartSpellingLocation of
              None \<Rightarrow> Inr Replace
            | Some col \<Rightarrow>
                (let StartOfLine = getLocWithOffset StartSpellingLocation (- int col + 1)
                 in case getCharacterData sm StartOfLine of
                      None \<Rightarrow> Inl BufferOverrun
                    | Some Text \<Rightarrow>
                        (let Start = getDecomposedLoc StartOfLine;
                             End = getDecomposedLoc (getLocForEndOfToken sm EndSpellingLocation)
                         in if fst Start \<noteq> fst End then Inr Replace
                            else if snd End < snd Start then Inr Replace
                            else
                              (case scan_eol Text (nat (snd End - snd Start)) of
                                 Inl err \<Rightarrow> Inl err
                               | Inr eol \<Rightarrow>
                                   (case std_string Text (int eol) of
                                      Inl err \<Rightarrow> Inl err
                                    | Inr ExistingText \<Rightarrow>
                                        (let EndOfLine = getLocWithOffset StartOfLine (int eol)
                                         in Inr
                                              (AddReplacement (getFileEntryForID sm (fst Start))
                                                 (Replacement_at sm EndOfLine 0 ''\<newline>#endif'')
                                                 (AddReplacement (getFileEntryForID sm (fst Start))
                                                    (Replacement_at sm StartOfLine 0
                                                       (''#if QT_VERSION < QT_VERSION_CHECK(5, 0, 0)\<newline>''
                                                          @ ExistingText @ ''\<newline>#else\<newline>''))
                                                    Replace)))))))))"

section \<open>Match results\<close>

text \<open>
  A match binds names to AST nodes. An expression is known by its range; a member
  expression also by the declaration of its member, which is a method with the qualified
  names of the methods it overrides, or some other declaration; a method declaration by
  its range, its parameters and whether it is a definition and has an inline body.
  \<^verbatim>\<open>getNodeAs<T>(ID)\<close> is a null pointer (\<open>None\<close>) when the name is not bound to a node of
  type \<open>T\<close>. \<^verbatim>\<open>Result.SourceManager\<close> and \<^verbatim>\<open>Result.Context->getSourceManager()\<close> are the
  same SourceManager.
\<close>

record CXXMethodDecl =
  MethodRange :: Node
  ParamDecls :: "Node list"
  ThisDeclarationIsADefinition :: bool
  InlineBody :: bool
  OverriddenMethods :: "string list"

datatype ValueDecl = MethodDecl CXXMethodDecl | OtherDecl

datatype BoundNode =
    ExprNode Node
  | MemberExprNode Node ValueDecl
  | MethodDeclNode CXXMethodDecl

record MatchResult =
  Nodes :: "string \<rightharpoonup> BoundNode"
  SourceMgr :: SourceManager

definition getNodeAs_Expr :: "MatchResult \<Rightarrow> string \<Rightarrow> Node option" where
  "getNodeAs_Expr Result ID =
     (case Nodes Result ID of
        Some (ExprNode n) \<Rightarrow> Some n
      | Some (MemberExprNode n d) \<Rightarrow> Some n
      | _ \<Rightarrow> None)"

definition getNodeAs_MemberExpr :: "MatchResult \<Rightarrow> string \<Rightarrow> (Node \<times> ValueDecl) option" where
  "getNodeAs_MemberExpr Result ID =
     (case Nodes Result ID of
        Some (MemberExprNode n d) \<Rightarrow> Some (n, d)
      | _ \<Rightarrow> None)"

definition getNodeAs_CXXMethodDecl :: "MatchResult \<Rightarrow> string \<Rightarrow> CXXMethodDecl option" where
  "getNodeAs_CXXMethodDecl Result ID =
     (case Nodes Result ID of
        Some (MethodDeclNode F) \<Rightarrow> Some F
      | _ \<Rightarrow> None)"

text \<open>\<^verbatim>\<open>dyn_cast<CXXMethodDecl>(V)\<close>\<close>

fun dyn_cast_CXXMethodDecl :: "ValueDecl \<Rightarrow> CXXMethodDecl option" where
  "dyn_cast_CXXMethodDecl (MethodDecl M) = Some M"
| "dyn_cast_CXXMethodDecl OtherDecl = None"

text \<open>
  \<^verbatim>\<open>F->getParamDecl(i)\<close> asserts \<^verbatim>\<open>i < getNumParams()\<close>. The index the tool passes is the
  unsigned \<^verbatim>\<open>F->getNumParams() - 1\<close>, which wraps around for no parameters.
\<close>

definition getNumParams :: "CXXMethodDecl \<Rightarrow> nat" where
  "getNumParams F = length (ParamDecls F)"

definition unsigned_minus_1 :: "nat \<Rightarrow> nat" where
  "unsigned_minus_1 n = nat ((int n - 1) mod 2 ^ 32)"

definition getParamDecl :: "CXXMethodDecl \<Rightarrow> nat \<Rightarrow> error + Node" where
  "getParamDecl F i = (if i < getNumParams F then Inr (ParamDecls F ! i) else Inl IllegalParam)"

section \<open>The callbacks\<close>

text \<open>
  Each \<^verbatim>\<open>run(Result)\<close> of a callback class is a function of the parameter \<open>AddReplacement\<close>,
  the options, the match result and the replacement map \<^verbatim>\<open>*Replace\<close>; it returns the new
  replacement map, or the error it ends in.
\<close>

text \<open>\<^verbatim>\<open>getText(*Result.SourceManager, *P)\<close> for a pointer that may be null\<close>

definition getText_ptr :: "SourceManager \<Rightarrow> Node option \<Rightarrow> error + string" where
  "getText_ptr sm P = (case P of None \<Rightarrow> Inl NullPointer | Some node \<Rightarrow> getText sm node)"

text \<open>
  The call the callbacks register the replacement of a node with:
  \<^verbatim>\<open>Utils::AddReplacement(srcMgr.getFileEntryForID(srcMgr.getFileID(Call->getLocStart())),
  Replacement(*Result.SourceManager, Call, Text), Replace)\<close>.
\<close>

definition replaceNode ::
    "'r AddReplacementFn \<Rightarrow> SourceManager \<Rightarrow> Node \<Rightarrow> string \<Rightarrow> 'r \<Rightarrow> 'r" where
  "replaceNode AddReplacement sm Call txt Replace =
     AddReplacement (getFileEntryForID sm (getFileID (LocStart Call)))
       (Replacement_node sm Call txt) Replace"

definition PortQtEscape4To5_run ::
    "'r AddReplacementFn \<Rightarrow> Options \<Rightarrow> MatchResult \<Rightarrow> 'r \<Rightarrow> error + 'r" where
  "PortQtEscape4To5_run AddReplacement opts Result Replace =
     (let Call = getNodeAs_Expr Result ''call'';
          CTor = getNodeAs_Expr Result ''ctor'';
          E = getNodeAs_Expr Result ''expr'';
          Op = getNodeAs_Expr Result ''operator''
      in case (if CTor \<noteq> None then getText_ptr (SourceMgr Result) CTor
               else if E \<noteq> None then getText_ptr (SourceMgr Result) E
               else getText_ptr (SourceMgr Result) Op) of
           Inl err \<Rightarrow> Inl err
         | Inr ArgText \<Rightarrow>
             if ArgText = [] then Inr Replace
             else
               (let output = (if CTor \<noteq> None \<or> Op \<noteq> None
                              then ''QString('' @ ArgText @ '').toHtmlEscaped()''
                              else ArgText @ ''.toHtmlEscaped()'')
                in case Call of
                     None \<Rightarrow> Inl NullPointer
                   | Some C \<Rightarrow>
                       (let Replace1 = replaceNode AddReplacement (SourceMgr Result) C output Replace
                        in if CreateIfdefs opts
                           then insertIfdef AddReplacement (SourceMgr Result) C Replace1
                           else Inr Replace1)))"

definition PortMetaMethods_run ::
    "'r AddReplacementFn \<Rightarrow> Options \<Rightarrow> MatchResult \<Rightarrow> 'r \<Rightarrow> error + 'r" where
  "PortMetaMethods_run AddReplacement opts Result Replace =
     (case getNodeAs_Expr Result ''call'' of
        None \<Rightarrow> Inl NullPointer
      | Some Call \<Rightarrow>
          (case getText (SourceMgr Result) Call of
             Inl err \<Rightarrow> Inl err
           | Inr ArgText \<Rightarrow>
               if ArgText = [] then Inr Replace
               else
                 (case string_replace ArgText (string_find ''signature'' ArgText)
                         (length ''signature'') ''methodSignature'' of
                    Inl err \<Rightarrow> Inl err
                  | Inr ArgText1 \<Rightarrow>
                      (let Replace1 = replaceNode AddReplacement (SourceMgr Result) Call ArgText1 Replace
                       in if CreateIfdefs opts
                          then insertIfdef AddReplacement (SourceMgr Result) Call Replace1
                          else Inr Replace1))))"

definition PortAtomic_run ::
    "'r AddReplacementFn \<Rightarrow> Options \<Rightarrow> MatchResult \<Rightarrow> 'r \<Rightarrow> error + 'r" where
  "PortAtomic_run AddReplacement opts Result Replace =
     (case getNodeAs_Expr Result ''call'' of
        None \<Rightarrow> Inl NullPointer
      | Some Call \<Rightarrow>
          (case getText (SourceMgr Result) Call of
             Inl err \<Rightarrow> Inl err
           | Inr ArgText \<Rightarrow>
               if ArgText = [] then Inr Replace
               else
                 (let Replace1 = replaceNode AddReplacement (SourceMgr Result) Call
                                   (ArgText @ ''.load()'') Replace
                  in if CreateIfdefs opts
                     then insertIfdef AddReplacement (SourceMgr Result) Call Replace1
                     else Inr Replace1)))"

definition PortEnum_run ::
    "'r AddReplacementFn \<Rightarrow> Options \<Rightarrow> MatchResult \<Rightarrow> 'r \<Rightarrow> error + 'r" where
  "PortEnum_run AddReplacement opts Result Replace =
     (case getNodeAs_Expr Result ''call'' of
        None \<Rightarrow> Inl NullPointer
      | Some Call \<Rightarrow>
          (case getText (SourceMgr Result) Call of
             Inl err \<Rightarrow> Inl err
           | Inr ArgText \<Rightarrow>
               if ArgText = [] then Inr Replace
               else
                 (case string_replace ArgText (string_find (Rename_Old opts) ArgText)
                         (length (Rename_Old opts)) (Rename_New opts) of
                    Inl err \<Rightarrow> Inl err
                  | Inr ArgText1 \<Rightarrow>
                      (let Replace1 = replaceNode AddReplacement (SourceMgr Result) Call
                                        (Rename_New opts) Replace
                       in if CreateIfdefs opts
                          then insertIfdef AddReplacement (SourceMgr Result) Call Replace1
                          else Inr Replace1))))"

definition PortView2_run ::
    "'r AddReplacementFn \<Rightarrow> Options \<Rightarrow> MatchResult \<Rightarrow> 'r \<Rightarrow> error + 'r" where
  "PortView2_run AddReplacement opts Result Replace =
     (case getNodeAs_CXXMethodDecl Result ''funcDecl'' of
        None \<Rightarrow> Inl NullPointer
      | Some F \<Rightarrow>
          (let StartSpellingLocation = getSpellingLoc (LocStart (MethodRange F))
           in if \<not> isValid StartSpellingLocation then Inr Replace
              else
                (let Start = getDecomposedLoc StartSpellingLocation
                 in case getFileEntryForID (SourceMgr Result) (fst Start) of
                      None \<Rightarrow> Inl NullPointer
                    | Some location \<Rightarrow>
                        if \<not> startswith location (SourceDir opts) then Inr Replace
                        else
                          (case getParamDecl F (unsigned_minus_1 (getNumParams F)) of
                             Inl err \<Rightarrow> Inl err
                           | Inr P \<Rightarrow>
                               (case getText (SourceMgr Result) P of
                                  Inl err \<Rightarrow> Inl err
                                | Inr ArgText \<Rightarrow>
                                    (let NewArg = ''const QVector<int> &'' @
                                           (if \<not> ThisDeclarationIsADefinition F \<or> InlineBody F
                                            then '' = QVector<int>()'' else []);
                                         Replace1 = replaceNode AddReplacement (SourceMgr Result) P
                                                      (ArgText @ '', '' @ NewArg) Replace
                                     in if CreateIfdefs opts
                                        then insertIfdef AddReplacement (SourceMgr Result) P Replace1
                                        else Inr Replace1))))))"

text \<open>
  The loop of \<^verbatim>\<open>PortRenamedMethods::run\<close> over the overridden methods of the callee:
  whether the qualified name of one of them, after \<^verbatim>\<open>"::"\<close>, contains the pattern.
\<close>

fun overridden_loop :: "string \<Rightarrow> string list \<Rightarrow> bool" where
  "overridden_loop Pattern [] = False"
| "overridden_loop Pattern (QualifiedName # rest) =
     (if string_find Pattern (''::'' @ QualifiedName) \<noteq> None then True
      else overridden_loop Pattern rest)"

definition overriddenVirtual ::
    "Options \<Rightarrow> MatchResult \<Rightarrow> error + bool" where
  "overriddenVirtual opts Result =
     (if getNodeAs_MemberExpr Result ''exact'' = None \<and> getNodeAs_Expr Result ''func'' = None
      then
        (case getNodeAs_MemberExpr Result ''expr'' of
           None \<Rightarrow> Inl NullPointer
         | Some (E, V) \<Rightarrow>
             (case dyn_cast_CXXMethodDecl V of
                None \<Rightarrow> Inl NullPointer
              | Some M \<Rightarrow> Inr (overridden_loop (RenameMethod_Class opts) (OverriddenMethods M))))
      else Inr False)"

definition PortRenamedMethods_run ::
    "'r AddReplacementFn \<Rightarrow> Options \<Rightarrow> MatchResult \<Rightarrow> 'r \<Rightarrow> error + 'r" where
  "PortRenamedMethods_run AddReplacement opts Result Replace =
     (case overriddenVirtual opts Result of
        Inl err \<Rightarrow> Inl err
      | Inr overridden \<Rightarrow>
          if \<not> (overridden \<or> getNodeAs_MemberExpr Result ''exact'' \<noteq> None
                  \<or> getNodeAs_Expr Result ''func'' \<noteq> None)
          then Inr Replace
          else
            (case getNodeAs_Expr Result ''call'' of
               None \<Rightarrow> Inl NullPointer
             | Some Call \<Rightarrow>
                 (case getText (SourceMgr Result) Call of
                    Inl err \<Rightarrow> Inl err
                  | Inr ArgText \<Rightarrow>
                      if ArgText = [] then Inr Replace
                      else
                        (case string_replace ArgText (string_find (Rename_Old opts) ArgText)
                                (length (Rename_Old opts)) (Rename_New opts) of
                           Inl err \<Rightarrow> Inl err
                         | Inr ArgText1 \<Rightarrow>
                             Inr (replaceNode AddReplacement (SourceMgr Result) Call ArgText1 Replace)))))"

definition RemoveArgument_run ::
    "'r AddReplacementFn \<Rightarrow> Options \<Rightarrow> MatchResult \<Rightarrow> 'r \<Rightarrow> error + 'r" where
  "RemoveArgument_run AddReplacement opts Result Replace =
     (case getNodeAs_Expr Result ''prevArg'' of
        None \<Rightarrow> Inl NullPointer
      | Some Key \<Rightarrow>
          (case getNodeAs_Expr Result ''arg'' of
             None \<Rightarrow> Inl NullPointer
           | Some Lang \<Rightarrow>
               (let StartSpellingLocation = getSpellingLoc (LocEnd Key);
                    EndSpellingLocation = getSpellingLoc (LocEnd Lang)
                in if \<not> isValid StartSpellingLocation \<or> \<not> isValid EndSpellingLocation
                   then Inr Replace
                   else
                     (let Start = getDecomposedLoc
                                    (getLocForEndOfToken (SourceMgr Result) StartSpellingLocation);
                          End = getDecomposedLoc
                                  (getLocForEndOfToken (SourceMgr Result) EndSpellingLocation)
                      in if fst Start \<noteq> fst End then Inr Replace
                         else if snd End < snd Start then Inr Replace
                         else
                           (let StartOfFile = getLocWithOffset StartSpellingLocation
                                                (- getFileOffset (LocStart Key));
                                StartSpellingLocation1 = getLocWithOffset StartOfFile (snd Start);
                                EndSpellingLocation1 = getLocWithOffset StartOfFile (snd End);
                                Replace1 = AddReplacement
                                             (getFileEntryForID (SourceMgr Result) (fst Start))
                                             (Replacement_range (SourceMgr Result)
                                                StartSpellingLocation1 EndSpellingLocation1 [])
                                             Replace
                            in if CreateIfdefs opts
                               then (case getNodeAs_Expr Result ''call'' of
                                       None \<Rightarrow> Inl NullPointer
                                     | Some Call \<Rightarrow>
                                         insertIfdef AddReplacement (SourceMgr Result) Call Replace1)
                               else Inr Replace1)))))"

section \<open>main\<close>

text \<open>
  The seven functions \<^verbatim>\<open>portEnum\<close>, \<^verbatim>\<open>portMethod\<close>, ... each set up one callback with its
  matchers and return what \<^verbatim>\<open>Tool.run\<close> returns. Here the run of a rule set is a
  parameter: a function from the rule set to the integer \<^verbatim>\<open>Tool.run\<close> returns for it.
  \<^verbatim>\<open>main\<close> ends in \<^verbatim>\<open>report_fatal_error\<close> when the compilation database cannot be loaded.
\<close>

datatype RuleSet =
    portEnum
  | portMethod
  | portQMetaMethodSignature
  | portQtEscape
  | portAtomics
  | portQImageText
  | portViewDataChanged

datatype exit = FatalError string | Return int

definition main :: "(RuleSet \<Rightarrow> int) \<Rightarrow> Options \<Rightarrow> bool \<Rightarrow> string \<Rightarrow> exit" where
  "main run opts Compilations ErrorMessage =
     (if \<not> Compilations then FatalError ErrorMessage
      else if RenameEnum opts \<noteq> [] then Return (run portEnum)
      else if Rename_Old opts \<noteq> [] \<and> Rename_New opts \<noteq> [] then Return (run portMethod)
      else if PortQMetaMethodSignature opts then Return (run portQMetaMethodSignature)
      else if PortQtEscape opts then Return (run portQtEscape)
      else if PortAtomics opts then Return (run portAtomics)
      else if Port_QImage_text opts then Return (run portQImageText)
      else if Port_QAbstractItemView_dataChanged opts then Return (run portViewDataChanged)
      else Return 1)"

section \<open>The dispatch, as the specification words it\<close>

text \<open>
  A rule-selector option applies to its rule set, and the rule sets have a fixed priority
  order. These follow the words of the specification; \<open>main\<close> above follows the code.
\<close>

fun spec_selector_applies :: "Options \<Rightarrow> RuleSet \<Rightarrow> bool" where
  "spec_selector_applies opts portEnum = (RenameEnum opts \<noteq> [])"
| "spec_selector_applies opts portMethod = (Rename_Old opts \<noteq> [] \<and> Rename_New opts \<noteq> [])"
| "spec_selector_applies opts portQMetaMethodSignature = PortQMetaMethodSignature opts"
| "spec_selector_applies opts portQtEscape = PortQtEscape opts"
| "spec_selector_applies opts portAtomics = PortAtomics opts"
| "spec_selector_applies opts portQImageText = Port_QImage_text opts"
| "spec_selector_applies opts portViewDataChanged = Port_QAbstractItemView_dataChanged opts"

definition spec_priority_order :: "RuleSet list" where
  "spec_priority_order =
     [portEnum, portMethod, portQMetaMethodSignature, portQtEscape, portAtomics,
      portQImageText, portViewDataChanged]"

section \<open>Example inputs\<close>

text \<open>
  The log of the calls of \<^verbatim>\<open>Utils::AddReplacement\<close>, in the order they are made: the
  instance of the parameter \<open>AddReplacement\<close> the examples are run with.
\<close>

definition logReplacement ::
    "FileEntry option \<Rightarrow> Replacement \<Rightarrow> (FileEntry option \<times> Replacement) list
       \<Rightarrow> (FileEntry option \<times> Replacement) list" where
  "logReplacement Entry r lg = lg @ [(Entry, r)]"

definition no_options :: Options where
  "no_options =
     \<lparr> SourceDir = ''/src'', BuildPath = ''/build'', CreateIfdefs = False,
       PortQMetaMethodSignature = False, PortQtEscape = False, PortAtomics = False,
       RenameEnum = [], RenameMethod_Class = [], Rename_Old = [], Rename_New = [],
       Port_QImage_text = False, Port_QAbstractItemView_dataChanged = False,
       SourcePaths = [''/src/a.cpp''] \<rparr>"

text \<open>
  \<^verbatim>\<open>Qt::escape(str)\<close> in file 2, with the argument (the token \<open>str\<close> at 11) bound as
  \<open>expr\<close>, and \<^verbatim>\<open>Qt::escape(a + b)\<close> in file 3, with the argument bound as \<open>operator\<close>.
\<close>

definition escape_sm :: SourceManager where
  "escape_sm =
     \<lparr> FileEntries = [2 \<mapsto> ''/src/a.cpp'', 3 \<mapsto> ''/src/b.cpp''],
       Buffers = [2 \<mapsto> ''Qt::escape(str)'', 3 \<mapsto> ''Qt::escape(a + b)''],
       MeasureTokenLength = (\<lambda>f n. if f = 2 \<and> n = 11 then 3 else 1) \<rparr>"

definition escape_plain :: MatchResult where
  "escape_plain =
     \<lparr> Nodes = [''call'' \<mapsto> ExprNode \<lparr>LocStart = FileLoc 2 0, LocEnd = FileLoc 2 14\<rparr>,
                 ''expr'' \<mapsto> ExprNode \<lparr>LocStart = FileLoc 2 11, LocEnd = FileLoc 2 11\<rparr>],
       SourceMgr = escape_sm \<rparr>"

definition escape_operator :: MatchResult where
  "escape_operator =
     \<lparr> Nodes = [''call'' \<mapsto> ExprNode \<lparr>LocStart = FileLoc 3 0, LocEnd = FileLoc 3 16\<rparr>,
                 ''operator'' \<mapsto> ExprNode \<lparr>LocStart = FileLoc 3 11, LocEnd = FileLoc 3 15\<rparr>],
       SourceMgr = escape_sm \<rparr>"

text \<open>
  A declaration of \<^verbatim>\<open>dataChanged\<close> with two parameters in file 2, and one without
  parameters in file 3, both under the source root \<^verbatim>\<open>/src\<close>.
\<close>

definition view_sm :: SourceManager where
  "view_sm =
     \<lparr> FileEntries = [2 \<mapsto> ''/src/view.h'', 3 \<mapsto> ''/src/plain.h''],
       Buffers = [2 \<mapsto> ''void dataChanged(const QModelIndex &a, const QModelIndex &b);\<newline>'',
                  3 \<mapsto> ''void dataChanged();\<newline>''],
       MeasureTokenLength = (\<lambda>f n. 1) \<rparr>"

definition view_decl :: CXXMethodDecl where
  "view_decl =
     \<lparr> MethodRange = \<lparr>LocStart = FileLoc 2 0, LocEnd = FileLoc 2 59\<rparr>,
       ParamDecls = [\<lparr>LocStart = FileLoc 2 17, LocEnd = FileLoc 2 36\<rparr>,
                     \<lparr>LocStart = FileLoc 2 39, LocEnd = FileLoc 2 58\<rparr>],
       ThisDeclarationIsADefinition = False,
       InlineBody = False,
       OverriddenMethods = [''QAbstractItemView::dataChanged''] \<rparr>"

definition view_match :: MatchResult where
  "view_match = \<lparr> Nodes = [''funcDecl'' \<mapsto> MethodDeclNode view_decl], SourceMgr = view_sm \<rparr>"

definition plain_decl :: CXXMethodDecl where
  "plain_decl =
     \<lparr> MethodRange = \<lparr>LocStart = FileLoc 3 0, LocEnd = FileLoc 3 17\<rparr>,
       ParamDecls = [],
       ThisDeclarationIsADefinition = False,
       InlineBody = False,
       OverriddenMethods = [] \<rparr>"

definition plain_match :: MatchResult where
  "plain_match = \<lparr> Nodes = [''funcDecl'' \<mapsto> MethodDeclNode plain_decl], SourceMgr = view_sm \<rparr>"

text \<open>
  The call \<^verbatim>\<open>d.oldName(1)\<close> in file 2, for the options \<^verbatim>\<open>rename-class=QFoo\<close>,
  \<^verbatim>\<open>rename-old=oldName\<close>, \<^verbatim>\<open>rename-new=newName\<close>. The callee, a member expression, is bound
  under the given name; its method overrides the methods with the given qualified names.
\<close>

definition rename_sm :: SourceManager where
  "rename_sm =
     \<lparr> FileEntries = [2 \<mapsto> ''/src/d.cpp''],
       Buffers = [2 \<mapsto> ''d.oldName(1);\<newline>''],
       MeasureTokenLength = (\<lambda>f n. if n = 2 then 7 else 1) \<rparr>"

definition rename_options :: Options where
  "rename_options =
     no_options\<lparr>RenameMethod_Class := ''QFoo'', Rename_Old := ''oldName'', Rename_New := ''newName''\<rparr>"

definition rename_callee :: "string list \<Rightarrow> ValueDecl" where
  "rename_callee overridden =
     MethodDecl \<lparr> MethodRange = \<lparr>LocStart = FileLoc 3 0, LocEnd = FileLoc 3 20\<rparr>,
                  ParamDecls = [\<lparr>LocStart = FileLoc 3 13, LocEnd = FileLoc 3 17\<rparr>],
                  ThisDeclarationIsADefinition = False,
                  InlineBody = False,
                  OverriddenMethods = overridden \<rparr>"

definition rename_match :: "string \<Rightarrow> string list \<Rightarrow> MatchResult" where
  "rename_match binding overridden =
     \<lparr> Nodes = [''call'' \<mapsto> ExprNode \<lparr>LocStart = FileLoc 2 0, LocEnd = FileLoc 2 11\<rparr>,
                 binding \<mapsto> MemberExprNode \<lparr>LocStart = FileLoc 2 0, LocEnd = FileLoc 2 2\<rparr>
                              (rename_callee overridden)],
       SourceMgr = rename_sm \<rparr>"

definition rename_edit :: "FileEntry option \<times> Replacement" where
  "rename_edit =
     (Some ''/src/d.cpp'',
      \<lparr>FilePath = ''/src/d.cpp'', Offset = 0, Length = 12, ReplacementText = ''d.newName(1)''\<rparr>)"

text \<open>
  \<^verbatim>\<open>img.text(k.data(), 0)\<close> in file 2: the argument before the sentinel, \<^verbatim>\<open>k.data()\<close>, starts
  at 9 and its last token, the closing parenthesis, is at 16.
\<close>

definition image_sm :: SourceManager where
  "image_sm =
     \<lparr> FileEntries = [2 \<mapsto> ''/src/img.cpp''],
       Buffers = [2 \<mapsto> ''img.text(k.data(), 0); int y = 1;\<newline>''],
       MeasureTokenLength = (\<lambda>f n. 1) \<rparr>"

definition image_match :: MatchResult where
  "image_match =
     \<lparr> Nodes = [''call'' \<mapsto> ExprNode \<lparr>LocStart = FileLoc 2 0, LocEnd = FileLoc 2 20\<rparr>,
                 ''prevArg'' \<mapsto> ExprNode \<lparr>LocStart = FileLoc 2 9, LocEnd = FileLoc 2 16\<rparr>,
                 ''arg'' \<mapsto> ExprNode \<lparr>LocStart = FileLoc 2 19, LocEnd = FileLoc 2 19\<rparr>],
       SourceMgr = image_sm \<rparr>"

text \<open>
  The declaration of \<open>view_decl\<close>, with a last parameter whose last token comes from a
  macro expansion and is spelled in file 3, another file than its start.
\<close>

definition crossing_param_decl :: CXXMethodDecl where
  "crossing_param_decl =
     \<lparr> MethodRange = \<lparr>LocStart = FileLoc 2 0, LocEnd = FileLoc 2 59\<rparr>,
       ParamDecls = [\<lparr>LocStart = FileLoc 2 17, LocEnd = FileLoc 2 36\<rparr>,
                     \<lparr>LocStart = FileLoc 2 39, LocEnd = MacroLoc 4 0 (FileLoc 3 0)\<rparr>],
       ThisDeclarationIsADefinition = False,
       InlineBody = False,
       OverriddenMethods = [''QAbstractItemView::dataChanged''] \<rparr>"

definition crossing_param_match :: MatchResult where
  "crossing_param_match =
     \<lparr> Nodes = [''funcDecl'' \<mapsto> MethodDeclNode crossing_param_decl], SourceMgr = view_sm \<rparr>"

text \<open>
  The line \<^verbatim>\<open>  x = Qt::escape(str);\<close> in file 2, with the edits the escape rule registers for
  it in the dual mode.
\<close>

definition dual_buffer :: string where
  "dual_buffer = ''  x = Qt::escape(str);\<newline>''"

definition dual_direct :: Replacement where
  "dual_direct =
     \<lparr>FilePath = ''/src/a.cpp'', Offset = 6, Length = 15, ReplacementText = ''str.toHtmlEscaped()''\<rparr>"

definition dual_before :: Replacement where
  "dual_before =
     \<lparr>FilePath = ''/src/a.cpp'', Offset = 0, Length = 0,
      ReplacementText =
        ''#if QT_VERSION < QT_VERSION_CHECK(5, 0, 0)\<newline>  x = Qt::escape(str);\<newline>#else\<newline>''\<rparr>"

definition dual_after :: Replacement where
  "dual_after =
     \<lparr>FilePath = ''/src/a.cpp'', Offset = 22, Length = 0, ReplacementText = ''\<newline>#endif''\<rparr>"

definition dual_sm :: SourceManager where
  "dual_sm =
     \<lparr> FileEntries = [2 \<mapsto> ''/src/a.cpp''],
       Buffers = [2 \<mapsto> ''  x = Qt::escape(str);\<newline>''],
       MeasureTokenLength = (\<lambda>f n. if n = 17 then 3 else 1) \<rparr>"

definition dual_match :: MatchResult where
  "dual_match =
     \<lparr> Nodes = [''call'' \<mapsto> ExprNode \<lparr>LocStart = FileLoc 2 6, LocEnd = FileLoc 2 20\<rparr>,
                 ''expr'' \<mapsto> ExprNode \<lparr>LocStart = FileLoc 2 17, LocEnd = FileLoc 2 17\<rparr>],
       SourceMgr = dual_sm \<rparr>"

text \<open>
  A call that starts in file 2 (\<^verbatim>\<open>img.\<close>, followed by an include directive) and ends in the
  included file 3 (\<^verbatim>\<open>text(key, 0);\<close>), where both arguments are.
\<close>

definition include_sm :: SourceManager where
  "include_sm =
     \<lparr> FileEntries = [2 \<mapsto> ''/src/a.cpp'', 3 \<mapsto> ''/src/rest.inc''],
       Buffers = [2 \<mapsto> ''img.\<newline>'', 3 \<mapsto> ''text(key, 0);\<newline>''],
       MeasureTokenLength = (\<lambda>f n. if f = 3 \<and> n = 5 then 3 else 1) \<rparr>"

definition include_match :: MatchResult where
  "include_match =
     \<lparr> Nodes = [''call'' \<mapsto> ExprNode \<lparr>LocStart = FileLoc 2 0, LocEnd = FileLoc 3 11\<rparr>,
                 ''prevArg'' \<mapsto> ExprNode \<lparr>LocStart = FileLoc 3 5, LocEnd = FileLoc 3 5\<rparr>,
                 ''arg'' \<mapsto> ExprNode \<lparr>LocStart = FileLoc 3 10, LocEnd = FileLoc 3 10\<rparr>],
       SourceMgr = include_sm \<rparr>"

text \<open>
  \<^verbatim>\<open>f(a, 0);\<close> in file 2: the argument before the sentinel is the one token \<open>a\<close> at 2, the
  sentinel is at 5.
\<close>

definition sentinel_sm :: SourceManager where
  "sentinel_sm =
     \<lparr> FileEntries = [2 \<mapsto> ''/src/f.cpp''],
       Buffers = [2 \<mapsto> ''f(a, 0);\<newline>''],
       MeasureTokenLength = (\<lambda>f n. 1) \<rparr>"

definition sentinel_match :: MatchResult where
  "sentinel_match =
     \<lparr> Nodes = [''call'' \<mapsto> ExprNode \<lparr>LocStart = FileLoc 2 0, LocEnd = FileLoc 2 6\<rparr>,
                 ''prevArg'' \<mapsto> ExprNode \<lparr>LocStart = FileLoc 2 2, LocEnd = FileLoc 2 2\<rparr>,
                 ''arg'' \<mapsto> ExprNode \<lparr>LocStart = FileLoc 2 5, LocEnd = FileLoc 2 5\<rparr>],
       SourceMgr = sentinel_sm \<rparr>"

section \<open>Lemmas on the modelled interfaces\<close>

lemma string_find_Some_iff:
  "string_find pat s = Some p \<longleftrightarrow>
     p \<le> length s \<and> prefix pat (drop p s) \<and> (\<forall>q<p. \<not> prefix pat (drop q s))"
proof (induction s arbitrary: p)
  case Nil
  then show ?case by auto
next
  case (Cons c cs)
  show ?case
  proof (cases "prefix pat (c # cs)")
    case True
    then show ?thesis by (cases p) auto
  next
    case False
    show ?thesis
    proof (cases p)
      case 0
      with False show ?thesis by simp
    next
      case (Suc k)
      have "(\<forall>q<Suc k. \<not> prefix pat (drop q (c # cs))) \<longleftrightarrow> (\<forall>q<k. \<not> prefix pat (drop q cs))"
        using False by (auto simp: less_Suc_eq_0_disj)
      with False Suc Cons.IH [of k] show ?thesis by auto
    qed
  qed
qed

lemma string_find_None_iff:
  "string_find pat s = None \<longleftrightarrow> (\<forall>q\<le>length s. \<not> prefix pat (drop q s))"
proof (induction s)
  case Nil
  then show ?case by auto
next
  case (Cons c cs)
  have "(\<forall>q\<le>Suc (length cs). \<not> prefix pat (drop q (c # cs))) \<longleftrightarrow>
        (\<not> prefix pat (c # cs) \<and> (\<forall>q\<le>length cs. \<not> prefix pat (drop q cs)))"
  proof
    assume a: "\<forall>q\<le>Suc (length cs). \<not> prefix pat (drop q (c # cs))"
    have "\<not> prefix pat (c # cs)" using a [rule_format, of 0] by simp
    moreover have "\<not> prefix pat (drop q cs)" if "q \<le> length cs" for q
      using a [rule_format, of "Suc q"] that by simp
    ultimately show "\<not> prefix pat (c # cs) \<and> (\<forall>q\<le>length cs. \<not> prefix pat (drop q cs))"
      by blast
  next
    assume b: "\<not> prefix pat (c # cs) \<and> (\<forall>q\<le>length cs. \<not> prefix pat (drop q cs))"
    show "\<forall>q\<le>Suc (length cs). \<not> prefix pat (drop q (c # cs))"
    proof (intro allI impI)
      fix q assume "q \<le> Suc (length cs)"
      then show "\<not> prefix pat (drop q (c # cs))" using b by (cases q) auto
    qed
  qed
  with Cons show ?case by auto
qed

text \<open>\<open>string_find\<close> finds the pattern exactly when the text contains it.\<close>

lemma string_find_contains:
  "string_find pat s \<noteq> None \<longleftrightarrow> (\<exists>xs ys. s = xs @ pat @ ys)"
proof
  assume "string_find pat s \<noteq> None"
  then obtain p where "string_find pat s = Some p" by auto
  then have "prefix pat (drop p s)" by (simp add: string_find_Some_iff)
  then obtain ys where "drop p s = pat @ ys" by (auto simp: prefix_def)
  then have "s = take p s @ pat @ ys" by (metis append_take_drop_id)
  then show "\<exists>xs ys. s = xs @ pat @ ys" by blast
next
  assume "\<exists>xs ys. s = xs @ pat @ ys"
  then obtain xs ys where s: "s = xs @ pat @ ys" by blast
  have "length xs \<le> length s" "prefix pat (drop (length xs) s)" by (simp_all add: s)
  then show "string_find pat s \<noteq> None" by (auto simp: string_find_None_iff)
qed

lemma line_start_le: "line_start buf n \<le> n"
  by (induction n) auto

lemma line_start_after_break:
  "line_start buf n = 0 \<or> buf ! (line_start buf n - 1) = CHR 0x0A
     \<or> buf ! (line_start buf n - 1) = CHR 0x0D"
  by (induction n) auto

lemma line_start_no_break:
  "line_start buf n \<le> j \<Longrightarrow> j < n \<Longrightarrow> buf ! j \<noteq> CHR 0x0A \<and> buf ! j \<noteq> CHR 0x0D"
proof (induction n)
  case 0
  then show ?case by simp
next
  case (Suc n)
  then show ?case by (cases "j = n") (auto split: if_splits)
qed

lemma scan_eol_finds:
  assumes "0 \<le> off" "nat off + i \<le> k" "k < length buf" "buf ! k = CHR 0x0A"
    and "\<forall>j. nat off + i \<le> j \<and> j < k \<longrightarrow> buf ! j \<noteq> CHR 0x0A"
  shows "scan_eol (buf, off) i = Inr (k - nat off)"
  using assms
proof (induction "k - (nat off + i)" arbitrary: i)
  case 0
  then have "nat off + i = k" by simp
  then have "nat (off + int i) = k" using \<open>0 \<le> off\<close> by linarith
  with 0 show ?case by (subst scan_eol.simps) auto
next
  case (Suc d)
  then have lt: "nat off + i < k" by simp
  have idx: "nat (off + int i) = nat off + i" using \<open>0 \<le> off\<close> by linarith
  have ne: "buf ! (nat off + i) \<noteq> CHR 0x0A" using Suc.prems(5) lt by simp
  have step: "scan_eol (buf, off) i = scan_eol (buf, off) (Suc i)"
    using lt Suc.prems(1,3) ne idx by (subst scan_eol.simps) auto
  have "scan_eol (buf, off) (Suc i) = Inr (k - nat off)"
  proof (rule Suc.hyps(1))
    show "d = k - (nat off + Suc i)" using Suc.hyps(2) by simp
    show "0 \<le> off" by fact
    show "nat off + Suc i \<le> k" using lt by simp
    show "k < length buf" by fact
    show "buf ! k = CHR 0x0A" by fact
    show "\<forall>j. nat off + Suc i \<le> j \<and> j < k \<longrightarrow> buf ! j \<noteq> CHR 0x0A"
      using Suc.prems(5) by auto
  qed
  with step show ?case by simp
qed

text \<open>
  Without a line feed between the position the loop starts at and the end of the buffer,
  the loop of \<open>insertIfdef\<close> reads outside the buffer.
\<close>

lemma scan_eol_overrun:
  assumes "\<forall>j. nat (off + int i) \<le> j \<and> j < length buf \<longrightarrow> buf ! j \<noteq> CHR 0x0A"
  shows "scan_eol (buf, off) i = Inl BufferOverrun"
  using assms
proof (induction "(buf, off)" i rule: scan_eol.induct)
  case (1 eol)
  show ?case
  proof (cases "off + int eol < 0 \<or> int (length buf) \<le> off + int eol")
    case True
    then show ?thesis by (subst scan_eol.simps) simp
  next
    case False
    then have ne: "buf ! nat (off + int eol) \<noteq> CHR 0x0A" using 1(2) by auto
    have "scan_eol (buf, off) (Suc eol) = Inl BufferOverrun"
    proof (rule 1(1))
      show "\<not> (off + int eol < 0 \<or> int (length buf) \<le> off + int eol)" by fact
      show "buf ! nat (off + int eol) \<noteq> CHR 0x0A" by fact
      show "\<forall>j. nat (off + int (Suc eol)) \<le> j \<and> j < length buf \<longrightarrow> buf ! j \<noteq> CHR 0x0A"
        using 1(2) False by auto
    qed
    with False ne show ?thesis by (subst scan_eol.simps) simp
  qed
qed

lemma take_split: "a \<le> b \<Longrightarrow> take b xs = take a xs @ take (b - a) (drop a xs)"
  using take_add [of a "b - a" xs] by simp

lemma split_five:
  assumes "a \<le> b" "b \<le> c" "c \<le> k" "k \<le> length (buf :: 'a list)"
  obtains A B M C Z where "buf = A @ B @ M @ C @ Z" "length A = a" "length B = b - a"
    "length M = c - b" "length C = k - c"
proof
  have "buf = take k buf @ drop k buf" by simp
  also have "take k buf = take c buf @ take (k - c) (drop c buf)" using assms(3) by (rule take_split)
  also have "take c buf = take b buf @ take (c - b) (drop b buf)" using assms(2) by (rule take_split)
  also have "take b buf = take a buf @ take (b - a) (drop a buf)" using assms(1) by (rule take_split)
  finally show "buf = take a buf @ take (b - a) (drop a buf) @ take (c - b) (drop b buf)
           @ take (k - c) (drop c buf) @ drop k buf" by simp
  show "length (take a buf) = a" using assms by simp
  show "length (take (b - a) (drop a buf)) = b - a" using assms by simp
  show "length (take (c - b) (drop b buf)) = c - b" using assms by simp
  show "length (take (k - c) (drop c buf)) = k - c" using assms by simp
qed

text \<open>
  An insertion at \<open>a\<close>, a replacement \<open>d\<close> inside \<open>[a, k]\<close> and an insertion at \<open>k\<close>,
  applied from the back of the file to the front.
\<close>

lemma apply_wrapped:
  assumes "int a \<le> Offset d" "0 \<le> Length d" "Offset d + Length d \<le> int k" "k \<le> length buf"
  shows "applyReplacement \<lparr>FilePath = p1, Offset = int a, Length = 0, ReplacementText = t1\<rparr>
           (applyReplacement d
              (applyReplacement \<lparr>FilePath = p2, Offset = int k, Length = 0, ReplacementText = t2\<rparr> buf))
         = take a buf @ t1
             @ applyReplacement (d\<lparr>Offset := Offset d - int a\<rparr>) (take (k - a) (drop a buf))
             @ t2 @ drop k buf"
proof -
  define b where "b = nat (Offset d)"
  define l where "l = nat (Length d)"
  have ab: "a \<le> b" and bc: "b \<le> b + l" and ck: "b + l \<le> k"
    using assms by (simp_all add: b_def l_def)
  obtain A B M C Z where parts: "buf = A @ B @ M @ C @ Z" "length A = a" "length B = b - a"
    "length M = b + l - b" "length C = k - (b + l)"
    using split_five [OF ab bc ck assms(4)] by blast
  have lenAB: "length A + length B = b" using parts ab by simp
  have lenM: "length M = l" using parts by simp
  have k_eq: "k = length A + length B + length M + length C" using parts ab ck by simp
  have off: "nat (Offset d) = length A + length B" using lenAB by (simp add: b_def)
  have off2: "nat (Offset d - int (length A)) = length B" using parts ab assms(1) by (simp add: b_def)
  have len: "nat (Length d) = length M" using lenM by (simp add: l_def)
  have a_eq: "a = length A" using parts by simp
  show ?thesis
    unfolding applyReplacement_def
    by (simp add: parts(1) off off2 len k_eq a_eq)
qed

section \<open>getText and the callbacks that extract text\<close>

lemma getText_invalid:
  "\<not> isValid (getSpellingLoc (LocStart node)) \<or> \<not> isValid (getSpellingLoc (LocEnd node))
     \<Longrightarrow> getText sm node = Inr []"
  by (auto simp: getText_def Let_def)

lemma getSpellingLoc_cases:
  "getSpellingLoc l = InvalidLoc \<or> (\<exists>f n. getSpellingLoc l = FileLoc f n)"
  by (induction l) auto

lemma isValid_getSpellingLoc:
  "isValid (getSpellingLoc l) \<Longrightarrow> \<exists>f n. getSpellingLoc l = FileLoc f n"
  using getSpellingLoc_cases [of l] by auto

lemma getText_FileLoc:
  assumes "getSpellingLoc (LocStart node) = FileLoc f s"
    and "getSpellingLoc (LocEnd node) = FileLoc f' e"
  shows "getText sm node =
     (case Buffers sm f of
        None \<Rightarrow> Inr []
      | Some buf \<Rightarrow>
          if f \<noteq> f' then Inr []
          else if e + int (MeasureTokenLength sm f' e) < s then Inr []
          else std_string (buf, s) (e + int (MeasureTokenLength sm f' e) - s))"
  using assms
  by (simp add: getText_def Let_def getCharacterData_def getFileID_def getFileOffset_def
        split: option.splits)

lemma getText_different_files:
  assumes "isValid (getSpellingLoc (LocStart node))" "isValid (getSpellingLoc (LocEnd node))"
    and "fst (getDecomposedLoc (getSpellingLoc (LocStart node)))
           \<noteq> fst (getDecomposedLoc (getLocForEndOfToken sm (getSpellingLoc (LocEnd node))))"
  shows "getText sm node = Inr []"
  using assms by (simp add: getText_def Let_def split: option.splits)

lemma getText_inverted:
  assumes "snd (getDecomposedLoc (getLocForEndOfToken sm (getSpellingLoc (LocEnd node))))
           < snd (getDecomposedLoc (getSpellingLoc (LocStart node)))"
  shows "getText sm node = Inr []"
  using assms by (simp add: getText_def Let_def split: option.splits)

lemma getText_error: "getText sm node = Inl err \<Longrightarrow> err = BufferOverrun"
  by (auto simp: getText_def Let_def split: option.splits if_splits prod.splits)

text \<open>What a non-empty result of \<open>getText\<close> tells about the node and its buffer.\<close>

lemma getText_nonempty:
  assumes "getText sm node = Inr t" "t \<noteq> []"
  obtains f s e buf where
    "getSpellingLoc (LocStart node) = FileLoc f s"
    "getSpellingLoc (LocEnd node) = FileLoc f e"
    "Buffers sm f = Some buf"
    "0 \<le> s" "s \<le> e + int (MeasureTokenLength sm f e)"
    "e + int (MeasureTokenLength sm f e) \<le> int (length buf)"
    "t = take (nat (e + int (MeasureTokenLength sm f e) - s)) (drop (nat s) buf)"
proof -
  from assms have v: "isValid (getSpellingLoc (LocStart node))" "isValid (getSpellingLoc (LocEnd node))"
    using getText_invalid [of node sm] by auto
  then obtain f s f' e where locs: "getSpellingLoc (LocStart node) = FileLoc f s"
      "getSpellingLoc (LocEnd node) = FileLoc f' e"
    using isValid_getSpellingLoc by blast
  note gt = getText_FileLoc [OF locs, of sm]
  from assms gt obtain buf where buf: "Buffers sm f = Some buf"
    by (cases "Buffers sm f") auto
  from assms gt buf have ff: "f = f'" by (auto split: if_splits)
  from assms gt buf ff have ge: "s \<le> e + int (MeasureTokenLength sm f e)" by (auto split: if_splits)
  from assms gt buf ff ge
  have ss: "std_string (buf, s) (e + int (MeasureTokenLength sm f e) - s) = Inr t" by simp
  then have "0 \<le> s" "e + int (MeasureTokenLength sm f e) \<le> int (length buf)"
    "t = take (nat (e + int (MeasureTokenLength sm f e) - s)) (drop (nat s) buf)"
    by (auto split: if_splits)
  with locs buf ff ge that show ?thesis by blast
qed

lemma Replacement_node_FileLoc:
  assumes "getSpellingLoc (LocStart node) = FileLoc f s"
    and "getSpellingLoc (LocEnd node) = FileLoc f e"
  shows "Replacement_node sm node txt =
     \<lparr> FilePath = (case FileEntries sm f of None \<Rightarrow> ''invalid-location'' | Some Entry \<Rightarrow> Entry),
       Offset = s, Length = e + int (MeasureTokenLength sm f e) - s, ReplacementText = txt \<rparr>"
  using assms
  by (simp add: Replacement_node_def setFromSourceRange_def setFromSourceLocation_def
        getRangeSize_def Let_def getFileEntryForID_def)

text \<open>The text \<open>getText\<close> extracts is the text a replacement of the node replaces.\<close>

lemma Replacement_node_replaces_text:
  assumes "getText sm node = Inr t" "t \<noteq> []"
  shows "\<exists>f s buf. getSpellingLoc (LocStart node) = FileLoc f s \<and> Buffers sm f = Some buf
           \<and> 0 \<le> s
           \<and> Offset (Replacement_node sm node txt) = s
           \<and> Length (Replacement_node sm node txt) = int (length t)
           \<and> ReplacementText (Replacement_node sm node txt) = txt
           \<and> buf = take (nat s) buf @ t @ drop (nat s + length t) buf
           \<and> applyReplacement (Replacement_node sm node txt) buf
               = take (nat s) buf @ txt @ drop (nat s + length t) buf"
proof -
  from assms obtain f s e buf where h:
    "getSpellingLoc (LocStart node) = FileLoc f s"
    "getSpellingLoc (LocEnd node) = FileLoc f e"
    "Buffers sm f = Some buf"
    "0 \<le> s" "s \<le> e + int (MeasureTokenLength sm f e)"
    "e + int (MeasureTokenLength sm f e) \<le> int (length buf)"
    "t = take (nat (e + int (MeasureTokenLength sm f e) - s)) (drop (nat s) buf)"
    by (rule getText_nonempty)
  define n where "n = nat (e + int (MeasureTokenLength sm f e) - s)"
  have len: "length t = n" using h by (simp add: n_def)
  have n_int: "e + int (MeasureTokenLength sm f e) - s = int n" using h by (simp add: n_def)
  have t: "t = take n (drop (nat s) buf)" using h by (simp add: n_def)
  have r: "Replacement_node sm node txt =
     \<lparr> FilePath = (case FileEntries sm f of None \<Rightarrow> ''invalid-location'' | Some Entry \<Rightarrow> Entry),
       Offset = s, Length = int n, ReplacementText = txt \<rparr>"
    using Replacement_node_FileLoc [OF h(1,2)] n_int by simp
  have split: "buf = take (nat s) buf @ t @ drop (nat s + n) buf"
    by (metis t append_take_drop_id drop_drop add.commute)
  show ?thesis
    using h(1,3,4) split by (auto simp: r len applyReplacement_def)
qed

lemma unsigned_minus_1_pos: "0 < n \<Longrightarrow> n < 2 ^ 32 \<Longrightarrow> unsigned_minus_1 n = n - 1"
proof -
  assume a: "0 < n" "n < 2 ^ 32"
  then have "0 \<le> int n - 1" "int n - 1 < 2 ^ 32" by simp_all
  then have "(int n - 1) mod 2 ^ 32 = int n - 1" by simp
  then show ?thesis using a by (simp add: unsigned_minus_1_def)
qed

lemma unsigned_minus_1_zero: "unsigned_minus_1 0 = 4294967295"
  by (simp add: unsigned_minus_1_def)

lemma getParamDecl_last:
  assumes "ParamDecls F \<noteq> []" "length (ParamDecls F) < 2 ^ 32"
  shows "getParamDecl F (unsigned_minus_1 (getNumParams F)) = Inr (last (ParamDecls F))"
  using assms
  by (simp add: getParamDecl_def getNumParams_def unsigned_minus_1_pos last_conv_nth)

lemma getParamDecl_none:
  assumes "ParamDecls F = []"
  shows "getParamDecl F (unsigned_minus_1 (getNumParams F)) = Inl IllegalParam"
  using assms by (simp add: getParamDecl_def getNumParams_def)

lemma insertIfdef_error:
  "insertIfdef AddReplacement sm node Replace = Inl err \<Longrightarrow> err = BufferOverrun"
proof -
  have scan: "scan_eol p i = Inl e \<Longrightarrow> e = BufferOverrun" for p i e
  proof (induction p i rule: scan_eol.induct)
    case (1 buf off eol)
    then show ?case by (subst (asm) (2) scan_eol.simps) (auto split: if_splits)
  qed
  have str: "std_string p n = Inl e \<Longrightarrow> e = BufferOverrun" for p n e
    by (cases p) (auto split: if_splits)
  assume "insertIfdef AddReplacement sm node Replace = Inl err"
  then show ?thesis
    by (auto simp: insertIfdef_def Let_def split: if_splits option.splits sum.splits
          dest: scan str)
qed

section \<open>The escape rule\<close>

lemma PortQtEscape_run_bound:
  fixes AddReplacement :: "'r AddReplacementFn"
  assumes call: "getNodeAs_Expr Result ''call'' = Some Call"
    and arg: "(getNodeAs_Expr Result ''expr'' = Some Arg \<and> getNodeAs_Expr Result ''ctor'' = None
                 \<and> getNodeAs_Expr Result ''operator'' = None \<and> wrap = False)
              \<or> (getNodeAs_Expr Result ''ctor'' = Some Arg \<and> getNodeAs_Expr Result ''expr'' = None
                 \<and> getNodeAs_Expr Result ''operator'' = None \<and> wrap = True)
              \<or> (getNodeAs_Expr Result ''operator'' = Some Arg \<and> getNodeAs_Expr Result ''ctor'' = None
                 \<and> getNodeAs_Expr Result ''expr'' = None \<and> wrap = True)"
    and argtext: "getText (SourceMgr Result) Arg = Inr ArgText" "ArgText \<noteq> []"
    and out: "output = (if wrap then ''QString('' @ ArgText @ '').toHtmlEscaped()''
                        else ArgText @ ''.toHtmlEscaped()'')"
  shows "PortQtEscape4To5_run AddReplacement opts Result Replace =
           (if CreateIfdefs opts
            then insertIfdef AddReplacement (SourceMgr Result) Call
                   (AddReplacement (getFileEntryForID (SourceMgr Result) (getFileID (LocStart Call)))
                      (Replacement_node (SourceMgr Result) Call output) Replace)
            else Inr (AddReplacement (getFileEntryForID (SourceMgr Result) (getFileID (LocStart Call)))
                        (Replacement_node (SourceMgr Result) Call output) Replace))"
  using arg
proof (elim disjE conjE)
  assume "getNodeAs_Expr Result ''expr'' = Some Arg" "getNodeAs_Expr Result ''ctor'' = None"
    "getNodeAs_Expr Result ''operator'' = None" "wrap = False"
  then show ?thesis using call argtext out
    by (simp add: PortQtEscape4To5_run_def Let_def getText_ptr_def replaceNode_def)
next
  assume "getNodeAs_Expr Result ''ctor'' = Some Arg" "getNodeAs_Expr Result ''expr'' = None"
    "getNodeAs_Expr Result ''operator'' = None" "wrap = True"
  then show ?thesis using call argtext out
    by (simp add: PortQtEscape4To5_run_def Let_def getText_ptr_def replaceNode_def)
next
  assume "getNodeAs_Expr Result ''operator'' = Some Arg" "getNodeAs_Expr Result ''ctor'' = None"
    "getNodeAs_Expr Result ''expr'' = None" "wrap = True"
  then show ?thesis using call argtext out
    by (simp add: PortQtEscape4To5_run_def Let_def getText_ptr_def replaceNode_def)
qed

text \<open>
  C5. For a match of the escape rule, which binds the call as \<open>call\<close> and the argument
  as exactly one of \<open>expr\<close> (a plain expression), \<open>ctor\<close> (a constructed temporary) or
  \<open>operator\<close> (an operator call, direct or under a bound temporary), and whose argument
  text is extracted as the non-empty \<open>ArgText\<close>: the callback registers the replacement
  of the whole call node by \<open>ArgText\<close> followed by \<^verbatim>\<open>.toHtmlEscaped()\<close> for a plain
  expression, and by \<^verbatim>\<open>QString(\<close> \<open>ArgText\<close> \<^verbatim>\<open>).toHtmlEscaped()\<close> for a constructed temporary or
  an operator call; the wrapper of the dual mode follows if \<^verbatim>\<open>CreateIfdefs\<close> is set.
  Applied to the buffer, the replacement puts that text in the place of the text of the
  call and leaves the rest.
\<close>

theorem PortQtEscape_rewrites:
  fixes AddReplacement :: "'r AddReplacementFn"
  assumes call: "getNodeAs_Expr Result ''call'' = Some Call"
    and arg: "(getNodeAs_Expr Result ''expr'' = Some Arg \<and> getNodeAs_Expr Result ''ctor'' = None
                 \<and> getNodeAs_Expr Result ''operator'' = None \<and> wrap = False)
              \<or> (getNodeAs_Expr Result ''ctor'' = Some Arg \<and> getNodeAs_Expr Result ''expr'' = None
                 \<and> getNodeAs_Expr Result ''operator'' = None \<and> wrap = True)
              \<or> (getNodeAs_Expr Result ''operator'' = Some Arg \<and> getNodeAs_Expr Result ''ctor'' = None
                 \<and> getNodeAs_Expr Result ''expr'' = None \<and> wrap = True)"
    and argtext: "getText (SourceMgr Result) Arg = Inr ArgText" "ArgText \<noteq> []"
    and out: "output = (if wrap then ''QString('' @ ArgText @ '').toHtmlEscaped()''
                        else ArgText @ ''.toHtmlEscaped()'')"
  shows "PortQtEscape4To5_run AddReplacement opts Result Replace =
           (if CreateIfdefs opts
            then insertIfdef AddReplacement (SourceMgr Result) Call
                   (AddReplacement (getFileEntryForID (SourceMgr Result) (getFileID (LocStart Call)))
                      (Replacement_node (SourceMgr Result) Call output) Replace)
            else Inr (AddReplacement (getFileEntryForID (SourceMgr Result) (getFileID (LocStart Call)))
                        (Replacement_node (SourceMgr Result) Call output) Replace))
       \<and> (\<forall>CallText. getText (SourceMgr Result) Call = Inr CallText \<and> CallText \<noteq> [] \<longrightarrow>
             (\<exists>f s buf. getSpellingLoc (LocStart Call) = FileLoc f s
                \<and> Buffers (SourceMgr Result) f = Some buf
                \<and> buf = take (nat s) buf @ CallText @ drop (nat s + length CallText) buf
                \<and> applyReplacement (Replacement_node (SourceMgr Result) Call output) buf
                    = take (nat s) buf @ output @ drop (nat s + length CallText) buf))"
proof (intro conjI allI impI)
  show "PortQtEscape4To5_run AddReplacement opts Result Replace =
           (if CreateIfdefs opts
            then insertIfdef AddReplacement (SourceMgr Result) Call
                   (AddReplacement (getFileEntryForID (SourceMgr Result) (getFileID (LocStart Call)))
                      (Replacement_node (SourceMgr Result) Call output) Replace)
            else Inr (AddReplacement (getFileEntryForID (SourceMgr Result) (getFileID (LocStart Call)))
                        (Replacement_node (SourceMgr Result) Call output) Replace))"
    using call arg argtext out by (rule PortQtEscape_run_bound)
next
  fix CallText
  assume "getText (SourceMgr Result) Call = Inr CallText \<and> CallText \<noteq> []"
  then have "getText (SourceMgr Result) Call = Inr CallText" "CallText \<noteq> []" by simp_all
  from Replacement_node_replaces_text [OF this, of "output"]
  show "\<exists>f s buf. getSpellingLoc (LocStart Call) = FileLoc f s
                \<and> Buffers (SourceMgr Result) f = Some buf
                \<and> buf = take (nat s) buf @ CallText @ drop (nat s + length CallText) buf
                \<and> applyReplacement (Replacement_node (SourceMgr Result) Call output) buf
                    = take (nat s) buf @ output @ drop (nat s + length CallText) buf"
    by blast
qed

text \<open>
  \<^verbatim>\<open>Qt::escape(str)\<close> becomes \<^verbatim>\<open>str.toHtmlEscaped()\<close> and \<^verbatim>\<open>Qt::escape(a + b)\<close> becomes
  \<^verbatim>\<open>QString(a + b).toHtmlEscaped()\<close>.
\<close>

theorem PortQtEscape_rewrites_witness:
  "PortQtEscape4To5_run logReplacement no_options escape_plain [] =
     Inr [(Some ''/src/a.cpp'',
           \<lparr>FilePath = ''/src/a.cpp'', Offset = 0, Length = 15,
            ReplacementText = ''str.toHtmlEscaped()''\<rparr>)]
   \<and> applyReplacement
        \<lparr>FilePath = ''/src/a.cpp'', Offset = 0, Length = 15, ReplacementText = ''str.toHtmlEscaped()''\<rparr>
        ''Qt::escape(str)'' = ''str.toHtmlEscaped()''
   \<and> PortQtEscape4To5_run logReplacement no_options escape_operator [] =
     Inr [(Some ''/src/b.cpp'',
           \<lparr>FilePath = ''/src/b.cpp'', Offset = 0, Length = 17,
            ReplacementText = ''QString(a + b).toHtmlEscaped()''\<rparr>)]
   \<and> applyReplacement
        \<lparr>FilePath = ''/src/b.cpp'', Offset = 0, Length = 17,
         ReplacementText = ''QString(a + b).toHtmlEscaped()''\<rparr>
        ''Qt::escape(a + b)'' = ''QString(a + b).toHtmlEscaped()''"
proof -
  let ?call = "\<lparr>LocStart = FileLoc 2 0, LocEnd = FileLoc 2 14\<rparr>"
  let ?arg = "\<lparr>LocStart = FileLoc 2 11, LocEnd = FileLoc 2 11\<rparr>"
  have call: "getNodeAs_Expr escape_plain ''call'' = Some ?call"
    by (simp add: getNodeAs_Expr_def escape_plain_def)
  have arg: "(getNodeAs_Expr escape_plain ''expr'' = Some ?arg \<and> getNodeAs_Expr escape_plain ''ctor'' = None
                 \<and> getNodeAs_Expr escape_plain ''operator'' = None \<and> False = False)
              \<or> (getNodeAs_Expr escape_plain ''ctor'' = Some ?arg \<and> getNodeAs_Expr escape_plain ''expr'' = None
                 \<and> getNodeAs_Expr escape_plain ''operator'' = None \<and> False = True)
              \<or> (getNodeAs_Expr escape_plain ''operator'' = Some ?arg \<and> getNodeAs_Expr escape_plain ''ctor'' = None
                 \<and> getNodeAs_Expr escape_plain ''expr'' = None \<and> False = True)"
    by (simp add: getNodeAs_Expr_def escape_plain_def)
  have argtext: "getText (SourceMgr escape_plain) ?arg = Inr ''str''"
    by (simp add: getText_FileLoc escape_plain_def escape_sm_def)
  have ne: "''str'' \<noteq> []" by simp
  have out: "''str.toHtmlEscaped()'' = (if False then ''QString('' @ ''str'' @ '').toHtmlEscaped()''
                        else ''str'' @ ''.toHtmlEscaped()'')" by simp
  note run = PortQtEscape_rewrites [OF call arg argtext ne out,
      where AddReplacement = logReplacement and opts = no_options and Replace = "[]", THEN conjunct1]
  have r: "Replacement_node escape_sm ?call ''str.toHtmlEscaped()'' =
      \<lparr>FilePath = ''/src/a.cpp'', Offset = 0, Length = 15, ReplacementText = ''str.toHtmlEscaped()''\<rparr>"
    by (simp add: Replacement_node_FileLoc escape_sm_def)
  have e: "getFileEntryForID escape_sm (getFileID (LocStart ?call)) = Some ''/src/a.cpp''"
    by (simp add: getFileEntryForID_def getFileID_def escape_sm_def)
  have sm: "SourceMgr escape_plain = escape_sm" by (simp add: escape_plain_def)
  have plain: "PortQtEscape4To5_run logReplacement no_options escape_plain [] =
     Inr [(Some ''/src/a.cpp'',
           \<lparr>FilePath = ''/src/a.cpp'', Offset = 0, Length = 15,
            ReplacementText = ''str.toHtmlEscaped()''\<rparr>)]"
    using run r e by (simp add: sm no_options_def logReplacement_def)
  have plain_applied: "applyReplacement
        \<lparr>FilePath = ''/src/a.cpp'', Offset = 0, Length = 15, ReplacementText = ''str.toHtmlEscaped()''\<rparr>
        ''Qt::escape(str)'' = ''str.toHtmlEscaped()''"
    by (simp add: applyReplacement_def)
  let ?call2 = "\<lparr>LocStart = FileLoc 3 0, LocEnd = FileLoc 3 16\<rparr>"
  let ?arg2 = "\<lparr>LocStart = FileLoc 3 11, LocEnd = FileLoc 3 15\<rparr>"
  have call2: "getNodeAs_Expr escape_operator ''call'' = Some ?call2"
    by (simp add: getNodeAs_Expr_def escape_operator_def)
  have arg2: "(getNodeAs_Expr escape_operator ''expr'' = Some ?arg2 \<and> getNodeAs_Expr escape_operator ''ctor'' = None
                 \<and> getNodeAs_Expr escape_operator ''operator'' = None \<and> True = False)
              \<or> (getNodeAs_Expr escape_operator ''ctor'' = Some ?arg2 \<and> getNodeAs_Expr escape_operator ''expr'' = None
                 \<and> getNodeAs_Expr escape_operator ''operator'' = None \<and> True = True)
              \<or> (getNodeAs_Expr escape_operator ''operator'' = Some ?arg2 \<and> getNodeAs_Expr escape_operator ''ctor'' = None
                 \<and> getNodeAs_Expr escape_operator ''expr'' = None \<and> True = True)"
    by (simp add: getNodeAs_Expr_def escape_operator_def)
  have argtext2: "getText (SourceMgr escape_operator) ?arg2 = Inr ''a + b''"
    by (simp add: getText_FileLoc escape_operator_def escape_sm_def)
  have ne2: "''a + b'' \<noteq> []" by simp
  have out2: "''QString(a + b).toHtmlEscaped()'' =
      (if True then ''QString('' @ ''a + b'' @ '').toHtmlEscaped()''
       else ''a + b'' @ ''.toHtmlEscaped()'')" by simp
  note run2 = PortQtEscape_rewrites [OF call2 arg2 argtext2 ne2 out2,
      where AddReplacement = logReplacement and opts = no_options and Replace = "[]", THEN conjunct1]
  have r2: "Replacement_node escape_sm ?call2 ''QString(a + b).toHtmlEscaped()'' =
      \<lparr>FilePath = ''/src/b.cpp'', Offset = 0, Length = 17,
       ReplacementText = ''QString(a + b).toHtmlEscaped()''\<rparr>"
    by (simp add: Replacement_node_FileLoc escape_sm_def)
  have e2: "getFileEntryForID escape_sm (getFileID (LocStart ?call2)) = Some ''/src/b.cpp''"
    by (simp add: getFileEntryForID_def getFileID_def escape_sm_def)
  have sm2: "SourceMgr escape_operator = escape_sm" by (simp add: escape_operator_def)
  have oper: "PortQtEscape4To5_run logReplacement no_options escape_operator [] =
     Inr [(Some ''/src/b.cpp'',
           \<lparr>FilePath = ''/src/b.cpp'', Offset = 0, Length = 17,
            ReplacementText = ''QString(a + b).toHtmlEscaped()''\<rparr>)]"
    using run2 r2 e2 by (simp add: sm2 no_options_def logReplacement_def)
  have oper_applied: "applyReplacement
        \<lparr>FilePath = ''/src/b.cpp'', Offset = 0, Length = 17,
         ReplacementText = ''QString(a + b).toHtmlEscaped()''\<rparr>
        ''Qt::escape(a + b)'' = ''QString(a + b).toHtmlEscaped()''"
    by (simp add: applyReplacement_def)
  from plain plain_applied oper oper_applied show ?thesis by blast
qed

section \<open>The dataChanged rule\<close>

lemma PortView2_run_param:
  fixes AddReplacement :: "'r AddReplacementFn"
  assumes decl: "getNodeAs_CXXMethodDecl Result ''funcDecl'' = Some F"
    and start: "getSpellingLoc (LocStart (MethodRange F)) = FileLoc f n"
    and entry: "getFileEntryForID (SourceMgr Result) f = Some location"
    and root: "startswith location (SourceDir opts)"
    and params: "ParamDecls F \<noteq> []" "length (ParamDecls F) < 2 ^ 32"
    and ptext: "getText (SourceMgr Result) (last (ParamDecls F)) = Inr ArgText"
    and newtext: "NewText = ArgText @ '', const QVector<int> &''
                @ (if \<not> ThisDeclarationIsADefinition F \<or> InlineBody F
                   then '' = QVector<int>()'' else [])"
  shows "PortView2_run AddReplacement opts Result Replace =
           (if CreateIfdefs opts
            then insertIfdef AddReplacement (SourceMgr Result) (last (ParamDecls F))
                   (AddReplacement
                      (getFileEntryForID (SourceMgr Result) (getFileID (LocStart (last (ParamDecls F)))))
                      (Replacement_node (SourceMgr Result) (last (ParamDecls F)) NewText) Replace)
            else Inr (AddReplacement
                      (getFileEntryForID (SourceMgr Result) (getFileID (LocStart (last (ParamDecls F)))))
                      (Replacement_node (SourceMgr Result) (last (ParamDecls F)) NewText) Replace))"
  using decl start entry root ptext newtext getParamDecl_last [OF params]
  by (simp add: PortView2_run_def Let_def replaceNode_def)

text \<open>
  C7. For a matched declaration \<open>F\<close> of \<^verbatim>\<open>dataChanged\<close> whose start is spelled in a file
  whose name starts with the source root, and which has a last parameter with the
  extracted text \<open>ArgText\<close>: the callback registers the replacement of the last
  parameter by \<open>ArgText\<close> followed by \<^verbatim>\<open>, const QVector<int> &\<close>, and by the default
  value \<^verbatim>\<open> = QVector<int>()\<close> exactly when the declaration is not a definition or has an
  inline body (it is not an out-of-line definition). When \<open>ArgText\<close> is not empty,
  the replacement, applied to the buffer, puts the new text in the place of \<open>ArgText\<close>
  and leaves the rest.
\<close>

theorem PortView2_adds_parameter:
  fixes AddReplacement :: "'r AddReplacementFn"
  assumes decl: "getNodeAs_CXXMethodDecl Result ''funcDecl'' = Some F"
    and start: "getSpellingLoc (LocStart (MethodRange F)) = FileLoc f n"
    and entry: "getFileEntryForID (SourceMgr Result) f = Some location"
    and root: "startswith location (SourceDir opts)"
    and params: "ParamDecls F \<noteq> []" "length (ParamDecls F) < 2 ^ 32"
    and ptext: "getText (SourceMgr Result) (last (ParamDecls F)) = Inr ArgText"
    and newtext: "NewText = ArgText @ '', const QVector<int> &''
                @ (if \<not> ThisDeclarationIsADefinition F \<or> InlineBody F
                   then '' = QVector<int>()'' else [])"
  shows "PortView2_run AddReplacement opts Result Replace =
           (if CreateIfdefs opts
            then insertIfdef AddReplacement (SourceMgr Result) (last (ParamDecls F))
                   (AddReplacement
                      (getFileEntryForID (SourceMgr Result) (getFileID (LocStart (last (ParamDecls F)))))
                      (Replacement_node (SourceMgr Result) (last (ParamDecls F)) NewText) Replace)
            else Inr (AddReplacement
                      (getFileEntryForID (SourceMgr Result) (getFileID (LocStart (last (ParamDecls F)))))
                      (Replacement_node (SourceMgr Result) (last (ParamDecls F)) NewText) Replace))
       \<and> (ArgText \<noteq> [] \<longrightarrow>
             (\<exists>f s buf. getSpellingLoc (LocStart (last (ParamDecls F))) = FileLoc f s
                \<and> Buffers (SourceMgr Result) f = Some buf
                \<and> buf = take (nat s) buf @ ArgText @ drop (nat s + length ArgText) buf
                \<and> applyReplacement (Replacement_node (SourceMgr Result) (last (ParamDecls F)) NewText) buf
                    = take (nat s) buf @ NewText @ drop (nat s + length ArgText) buf))"
proof (intro conjI impI)
  show "PortView2_run AddReplacement opts Result Replace =
           (if CreateIfdefs opts
            then insertIfdef AddReplacement (SourceMgr Result) (last (ParamDecls F))
                   (AddReplacement
                      (getFileEntryForID (SourceMgr Result) (getFileID (LocStart (last (ParamDecls F)))))
                      (Replacement_node (SourceMgr Result) (last (ParamDecls F)) NewText) Replace)
            else Inr (AddReplacement
                      (getFileEntryForID (SourceMgr Result) (getFileID (LocStart (last (ParamDecls F)))))
                      (Replacement_node (SourceMgr Result) (last (ParamDecls F)) NewText) Replace))"
    using decl start entry root params ptext newtext by (rule PortView2_run_param)
next
  assume "ArgText \<noteq> []"
  from Replacement_node_replaces_text [OF ptext this, of NewText]
  show "\<exists>f s buf. getSpellingLoc (LocStart (last (ParamDecls F))) = FileLoc f s
                \<and> Buffers (SourceMgr Result) f = Some buf
                \<and> buf = take (nat s) buf @ ArgText @ drop (nat s + length ArgText) buf
                \<and> applyReplacement (Replacement_node (SourceMgr Result) (last (ParamDecls F)) NewText) buf
                    = take (nat s) buf @ NewText @ drop (nat s + length ArgText) buf"
    by blast
qed

text \<open>
  The declaration \<^verbatim>\<open>void dataChanged(const QModelIndex &a, const QModelIndex &b);\<close> gets the
  new parameter with its default value.
\<close>

theorem PortView2_adds_parameter_witness:
  "PortView2_run logReplacement no_options view_match [] =
     Inr [(Some ''/src/view.h'',
           \<lparr>FilePath = ''/src/view.h'', Offset = 39, Length = 20,
            ReplacementText = ''const QModelIndex &b, const QVector<int> & = QVector<int>()''\<rparr>)]
   \<and> applyReplacement
         \<lparr>FilePath = ''/src/view.h'', Offset = 39, Length = 20,
          ReplacementText = ''const QModelIndex &b, const QVector<int> & = QVector<int>()''\<rparr>
         ''void dataChanged(const QModelIndex &a, const QModelIndex &b);\<newline>''
       = ''void dataChanged(const QModelIndex &a, const QModelIndex &b, const QVector<int> & = QVector<int>());\<newline>''"
proof -
  let ?P = "\<lparr>LocStart = FileLoc 2 39, LocEnd = FileLoc 2 58\<rparr>"
  have decl: "getNodeAs_CXXMethodDecl view_match ''funcDecl'' = Some view_decl"
    by (simp add: getNodeAs_CXXMethodDecl_def view_match_def)
  have start: "getSpellingLoc (LocStart (MethodRange view_decl)) = FileLoc 2 0"
    by (simp add: view_decl_def)
  have entry: "getFileEntryForID (SourceMgr view_match) 2 = Some ''/src/view.h''"
    by (simp add: getFileEntryForID_def view_match_def view_sm_def)
  have root: "startswith ''/src/view.h'' (SourceDir no_options)"
    by (simp add: startswith_def no_options_def)
  have params: "ParamDecls view_decl \<noteq> []" "length (ParamDecls view_decl) < 2 ^ 32"
    by (simp_all add: view_decl_def)
  have lastp: "last (ParamDecls view_decl) = ?P" by (simp add: view_decl_def)
  have ptext: "getText (SourceMgr view_match) (last (ParamDecls view_decl)) = Inr ''const QModelIndex &b''"
    by (simp add: lastp getText_FileLoc view_match_def view_sm_def)
  have newtext: "''const QModelIndex &b, const QVector<int> & = QVector<int>()'' =
      ''const QModelIndex &b'' @ '', const QVector<int> &''
        @ (if \<not> ThisDeclarationIsADefinition view_decl \<or> InlineBody view_decl
           then '' = QVector<int>()'' else [])"
    by (simp add: view_decl_def)
  note run = PortView2_adds_parameter [OF decl start entry root params ptext newtext,
      where AddReplacement = logReplacement and Replace = "[]", THEN conjunct1]
  have r: "Replacement_node (SourceMgr view_match) ?P
             ''const QModelIndex &b, const QVector<int> & = QVector<int>()'' =
      \<lparr>FilePath = ''/src/view.h'', Offset = 39, Length = 20,
       ReplacementText = ''const QModelIndex &b, const QVector<int> & = QVector<int>()''\<rparr>"
    by (simp add: Replacement_node_FileLoc view_match_def view_sm_def)
  have e: "getFileEntryForID (SourceMgr view_match) (getFileID (LocStart ?P)) = Some ''/src/view.h''"
    by (simp add: getFileEntryForID_def getFileID_def view_match_def view_sm_def)
  have "PortView2_run logReplacement no_options view_match [] =
     Inr [(Some ''/src/view.h'',
           \<lparr>FilePath = ''/src/view.h'', Offset = 39, Length = 20,
            ReplacementText = ''const QModelIndex &b, const QVector<int> & = QVector<int>()''\<rparr>)]"
    using run r e by (simp add: lastp no_options_def logReplacement_def)
  moreover have "applyReplacement
         \<lparr>FilePath = ''/src/view.h'', Offset = 39, Length = 20,
          ReplacementText = ''const QModelIndex &b, const QVector<int> & = QVector<int>()''\<rparr>
         ''void dataChanged(const QModelIndex &a, const QModelIndex &b);\<newline>''
       = ''void dataChanged(const QModelIndex &a, const QModelIndex &b, const QVector<int> & = QVector<int>());\<newline>''"
    by (simp add: applyReplacement_def)
  ultimately show ?thesis by blast
qed

text \<open>
  C10. The callback reads the parameter at the index \<^verbatim>\<open>getNumParams() - 1\<close> with no check
  that there is a parameter: for a matched declaration in a file under the source root,
  the assertion of \<^verbatim>\<open>getParamDecl\<close> fails exactly when the declaration has no
  parameters.
\<close>

theorem PortView2_illegal_param:
  fixes AddReplacement :: "'r AddReplacementFn"
  assumes decl: "getNodeAs_CXXMethodDecl Result ''funcDecl'' = Some F"
    and start: "getSpellingLoc (LocStart (MethodRange F)) = FileLoc f n"
    and entry: "getFileEntryForID (SourceMgr Result) f = Some location"
    and root: "startswith location (SourceDir opts)"
    and fits: "length (ParamDecls F) < 2 ^ 32"
  shows "PortView2_run AddReplacement opts Result Replace = Inl IllegalParam
           \<longleftrightarrow> ParamDecls F = []"
proof
  assume "ParamDecls F = []"
  then show "PortView2_run AddReplacement opts Result Replace = Inl IllegalParam"
    using decl start entry root getParamDecl_none [of F]
    by (simp add: PortView2_run_def Let_def)
next
  assume r: "PortView2_run AddReplacement opts Result Replace = Inl IllegalParam"
  show "ParamDecls F = []"
  proof (rule ccontr)
    assume ne: "ParamDecls F \<noteq> []"
    note p = getParamDecl_last [OF ne fits]
    from r decl start entry root p
    have "(case getText (SourceMgr Result) (last (ParamDecls F)) of
             Inl err \<Rightarrow> Inl err
           | Inr ArgText \<Rightarrow>
               (let NewArg = ''const QVector<int> &'' @
                      (if \<not> ThisDeclarationIsADefinition F \<or> InlineBody F
                       then '' = QVector<int>()'' else []);
                    Replace1 = replaceNode AddReplacement (SourceMgr Result) (last (ParamDecls F))
                                 (ArgText @ '', '' @ NewArg) Replace
                in if CreateIfdefs opts
                   then insertIfdef AddReplacement (SourceMgr Result) (last (ParamDecls F)) Replace1
                   else Inr Replace1)) = Inl IllegalParam"
      by (simp add: PortView2_run_def Let_def)
    then show False
      by (auto simp: Let_def split: sum.splits if_splits dest: getText_error insertIfdef_error)
  qed
qed

text \<open>A declaration \<^verbatim>\<open>void dataChanged();\<close> under the source root reaches the failed assertion.\<close>

theorem PortView2_illegal_param_witness:
  "ParamDecls plain_decl = []
   \<and> PortView2_run logReplacement no_options plain_match [] = Inl IllegalParam"
proof -
  have decl: "getNodeAs_CXXMethodDecl plain_match ''funcDecl'' = Some plain_decl"
    by (simp add: getNodeAs_CXXMethodDecl_def plain_match_def)
  have start: "getSpellingLoc (LocStart (MethodRange plain_decl)) = FileLoc 3 0"
    by (simp add: plain_decl_def)
  have entry: "getFileEntryForID (SourceMgr plain_match) 3 = Some ''/src/plain.h''"
    by (simp add: getFileEntryForID_def plain_match_def view_sm_def)
  have root: "startswith ''/src/plain.h'' (SourceDir no_options)"
    by (simp add: startswith_def no_options_def)
  have fits: "length (ParamDecls plain_decl) < 2 ^ 32" by (simp add: plain_decl_def)
  have none: "ParamDecls plain_decl = []" by (simp add: plain_decl_def)
  from PortView2_illegal_param [OF decl start entry root fits, of logReplacement "[]"] none
  show ?thesis by simp
qed

section \<open>The method-rename rule\<close>

lemma overridden_loop_iff:
  "overridden_loop Pattern names \<longleftrightarrow>
     (\<exists>Q \<in> set names. \<exists>xs ys. ''::'' @ Q = xs @ Pattern @ ys)"
proof (induction names)
  case Nil
  then show ?case by simp
next
  case (Cons Q rest)
  have "string_find Pattern (''::'' @ Q) \<noteq> None \<longleftrightarrow> (\<exists>xs ys. ''::'' @ Q = xs @ Pattern @ ys)"
    by (rule string_find_contains)
  with Cons show ?case by auto
qed

lemma string_replace_found:
  assumes "string_find pat s = Some p"
  shows "string_replace s (string_find pat s) (length pat) new
           = Inr (take p s @ new @ drop (p + length pat) s)"
proof -
  from assms have "p \<le> length s" by (simp add: string_find_Some_iff)
  with assms show ?thesis by (simp add: string_replace_def)
qed

lemma string_find_first:
  assumes "string_find pat s = Some p"
  shows "s = take p s @ pat @ drop (p + length pat) s"
proof -
  from assms have "prefix pat (drop p s)" by (simp add: string_find_Some_iff)
  then obtain ys where ys: "drop p s = pat @ ys" by (auto simp: prefix_def)
  then have "drop (p + length pat) s = ys"
    by (metis append_eq_conv_conj drop_drop add.commute)
  with ys show ?thesis by (metis append_take_drop_id)
qed

lemma PortRenamedMethods_run_expr:
  fixes AddReplacement :: "'r AddReplacementFn"
  assumes "getNodeAs_MemberExpr Result ''exact'' = None"
    and "getNodeAs_Expr Result ''func'' = None"
    and "getNodeAs_MemberExpr Result ''expr'' = Some (E, MethodDecl M)"
  shows "PortRenamedMethods_run AddReplacement opts Result Replace =
     (if \<not> overridden_loop (RenameMethod_Class opts) (OverriddenMethods M) then Inr Replace
      else
        (case getNodeAs_Expr Result ''call'' of
           None \<Rightarrow> Inl NullPointer
         | Some Call \<Rightarrow>
             (case getText (SourceMgr Result) Call of
                Inl err \<Rightarrow> Inl err
              | Inr ArgText \<Rightarrow>
                  if ArgText = [] then Inr Replace
                  else
                    (case string_replace ArgText (string_find (Rename_Old opts) ArgText)
                            (length (Rename_Old opts)) (Rename_New opts) of
                       Inl err \<Rightarrow> Inl err
                     | Inr ArgText1 \<Rightarrow>
                         Inr (replaceNode AddReplacement (SourceMgr Result) Call ArgText1 Replace)))))"
  using assms by (simp add: PortRenamedMethods_run_def overriddenVirtual_def)

lemma PortRenamedMethods_run_qualified:
  fixes AddReplacement :: "'r AddReplacementFn"
  assumes "getNodeAs_MemberExpr Result ''exact'' \<noteq> None \<or> getNodeAs_Expr Result ''func'' \<noteq> None"
  shows "PortRenamedMethods_run AddReplacement opts Result Replace =
        (case getNodeAs_Expr Result ''call'' of
           None \<Rightarrow> Inl NullPointer
         | Some Call \<Rightarrow>
             (case getText (SourceMgr Result) Call of
                Inl err \<Rightarrow> Inl err
              | Inr ArgText \<Rightarrow>
                  if ArgText = [] then Inr Replace
                  else
                    (case string_replace ArgText (string_find (Rename_Old opts) ArgText)
                            (length (Rename_Old opts)) (Rename_New opts) of
                       Inl err \<Rightarrow> Inl err
                     | Inr ArgText1 \<Rightarrow>
                         Inr (replaceNode AddReplacement (SourceMgr Result) Call ArgText1 Replace))))"
  using assms by (auto simp: PortRenamedMethods_run_def overriddenVirtual_def)

lemma rename_call_text:
  "getText rename_sm \<lparr>LocStart = FileLoc 2 0, LocEnd = FileLoc 2 11\<rparr> = Inr ''d.oldName(1)''"
  by (simp add: getText_FileLoc rename_sm_def)

lemma rename_find: "string_find ''oldName'' ''d.oldName(1)'' = Some 2"
  by simp

lemma rename_replacement:
  "(getFileEntryForID rename_sm (getFileID (LocStart \<lparr>LocStart = FileLoc 2 0, LocEnd = FileLoc 2 11\<rparr>)),
    Replacement_node rename_sm \<lparr>LocStart = FileLoc 2 0, LocEnd = FileLoc 2 11\<rparr>
      (take 2 ''d.oldName(1)'' @ ''newName'' @ drop (2 + length ''oldName'') ''d.oldName(1)''))
   = rename_edit"
  by (simp add: Replacement_node_FileLoc getFileEntryForID_def getFileID_def rename_sm_def rename_edit_def)

lemma rename_match_nodes:
  "b = ''expr'' \<or> b = ''exact'' \<Longrightarrow>
     getNodeAs_Expr (rename_match b ov) ''call'' = Some \<lparr>LocStart = FileLoc 2 0, LocEnd = FileLoc 2 11\<rparr>"
  "SourceMgr (rename_match b ov) = rename_sm"
  "getNodeAs_MemberExpr (rename_match ''expr'' ov) ''exact'' = None"
  "getNodeAs_Expr (rename_match ''expr'' ov) ''func'' = None"
  "getNodeAs_MemberExpr (rename_match ''expr'' ov) ''expr''
     = Some (\<lparr>LocStart = FileLoc 2 0, LocEnd = FileLoc 2 2\<rparr>,
             MethodDecl \<lparr> MethodRange = \<lparr>LocStart = FileLoc 3 0, LocEnd = FileLoc 3 20\<rparr>,
                  ParamDecls = [\<lparr>LocStart = FileLoc 3 13, LocEnd = FileLoc 3 17\<rparr>],
                  ThisDeclarationIsADefinition = False,
                  InlineBody = False,
                  OverriddenMethods = ov \<rparr>)"
  "getNodeAs_MemberExpr (rename_match ''exact'' ov) ''exact'' \<noteq> None"
  by (auto simp: rename_match_def rename_callee_def getNodeAs_Expr_def getNodeAs_MemberExpr_def)

lemma rename_options_fields:
  "RenameMethod_Class rename_options = ''QFoo''"
  "Rename_Old rename_options = ''oldName''"
  "Rename_New rename_options = ''newName''"
  "CreateIfdefs rename_options = False"
  by (simp_all add: rename_options_def no_options_def)

lemma PortRenamedMethods_run_outcomes:
  fixes AddReplacement :: "'r AddReplacementFn"
  shows "(\<exists>err. PortRenamedMethods_run AddReplacement opts Result Replace = Inl err)
      \<or> PortRenamedMethods_run AddReplacement opts Result Replace = Inr Replace
      \<or> (\<exists>Call ArgText p.
            getNodeAs_Expr Result ''call'' = Some Call
          \<and> getText (SourceMgr Result) Call = Inr ArgText \<and> ArgText \<noteq> []
          \<and> string_find (Rename_Old opts) ArgText = Some p
          \<and> PortRenamedMethods_run AddReplacement opts Result Replace =
              Inr (AddReplacement (getFileEntryForID (SourceMgr Result) (getFileID (LocStart Call)))
                     (Replacement_node (SourceMgr Result) Call
                        (take p ArgText @ Rename_New opts
                           @ drop (p + length (Rename_Old opts)) ArgText))
                     Replace))"
proof (cases "PortRenamedMethods_run AddReplacement opts Result Replace")
  case (Inl err)
  then show ?thesis by blast
next
  case (Inr R)
  show ?thesis
  proof (cases "R = Replace")
    case True
    with Inr show ?thesis by blast
  next
    case False
    from Inr False obtain Call where call: "getNodeAs_Expr Result ''call'' = Some Call"
      by (cases "getNodeAs_Expr Result ''call''")
         (auto simp: PortRenamedMethods_run_def split: sum.splits if_splits)
    from Inr False call obtain ArgText where at: "getText (SourceMgr Result) Call = Inr ArgText"
      by (cases "getText (SourceMgr Result) Call")
         (auto simp: PortRenamedMethods_run_def split: sum.splits if_splits)
    from Inr False call at have ne: "ArgText \<noteq> []"
      by (auto simp: PortRenamedMethods_run_def split: sum.splits if_splits)
    from Inr False call at ne obtain p where p: "string_find (Rename_Old opts) ArgText = Some p"
      by (cases "string_find (Rename_Old opts) ArgText")
         (auto simp: PortRenamedMethods_run_def string_replace_def split: sum.splits if_splits)
    from Inr False call at ne string_replace_found [OF p, of "Rename_New opts"]
    have "R = AddReplacement (getFileEntryForID (SourceMgr Result) (getFileID (LocStart Call)))
                     (Replacement_node (SourceMgr Result) Call
                        (take p ArgText @ Rename_New opts
                           @ drop (p + length (Rename_Old opts)) ArgText))
                     Replace"
      by (auto simp: PortRenamedMethods_run_def replaceNode_def split: sum.splits if_splits)
    with Inr call at ne p show ?thesis by blast
  qed
qed

text \<open>
  C3, as amended. For a matched call whose callee is bound as \<open>expr\<close> only (it does not
  itself match \<^verbatim>\<open><ConfiguredClass>::<OldName>\<close>), the callback walks the methods the callee
  overrides and tests whether the qualified name of one of them, after \<^verbatim>\<open>::\<close>, contains
  the configured class name (\<^verbatim>\<open>rename-class\<close> alone, not \<^verbatim>\<open><ConfiguredClass>::<OldName>\<close>).
  When one does, and the extracted call text is not empty and contains \<open>OldName\<close>, the
  whole call is replaced by the call text with the first occurrence of \<open>OldName\<close>
  replaced by \<open>NewName\<close>.
\<close>

theorem PortRenamedMethods_override:
  fixes AddReplacement :: "'r AddReplacementFn"
  assumes exact: "getNodeAs_MemberExpr Result ''exact'' = None"
    and func: "getNodeAs_Expr Result ''func'' = None"
    and expr: "getNodeAs_MemberExpr Result ''expr'' = Some (E, MethodDecl M)"
    and call: "getNodeAs_Expr Result ''call'' = Some Call"
    and over: "\<exists>Q \<in> set (OverriddenMethods M). \<exists>xs ys. ''::'' @ Q = xs @ RenameMethod_Class opts @ ys"
    and calltext: "getText (SourceMgr Result) Call = Inr ArgText" "ArgText \<noteq> []"
    and occ: "string_find (Rename_Old opts) ArgText = Some p"
  shows "overriddenVirtual opts Result =
           Inr (\<exists>Q \<in> set (OverriddenMethods M). \<exists>xs ys. ''::'' @ Q = xs @ RenameMethod_Class opts @ ys)
         \<and> ArgText = take p ArgText @ Rename_Old opts @ drop (p + length (Rename_Old opts)) ArgText
         \<and> (\<forall>q<p. \<not> prefix (Rename_Old opts) (drop q ArgText))
         \<and> PortRenamedMethods_run AddReplacement opts Result Replace =
             Inr (AddReplacement (getFileEntryForID (SourceMgr Result) (getFileID (LocStart Call)))
                    (Replacement_node (SourceMgr Result) Call
                       (take p ArgText @ Rename_New opts @ drop (p + length (Rename_Old opts)) ArgText))
                    Replace)"
proof (intro conjI)
  show "overriddenVirtual opts Result =
           Inr (\<exists>Q \<in> set (OverriddenMethods M). \<exists>xs ys. ''::'' @ Q = xs @ RenameMethod_Class opts @ ys)"
    using exact func expr by (simp add: overriddenVirtual_def overridden_loop_iff)
  show "ArgText = take p ArgText @ Rename_Old opts @ drop (p + length (Rename_Old opts)) ArgText"
    using occ by (rule string_find_first)
  show "\<forall>q<p. \<not> prefix (Rename_Old opts) (drop q ArgText)"
    using occ by (simp add: string_find_Some_iff)
  have "overridden_loop (RenameMethod_Class opts) (OverriddenMethods M)"
    using over by (simp add: overridden_loop_iff)
  then show "PortRenamedMethods_run AddReplacement opts Result Replace =
             Inr (AddReplacement (getFileEntryForID (SourceMgr Result) (getFileID (LocStart Call)))
                    (Replacement_node (SourceMgr Result) Call
                       (take p ArgText @ Rename_New opts @ drop (p + length (Rename_Old opts)) ArgText))
                    Replace)"
    using call calltext string_replace_found [OF occ]
    by (simp add: PortRenamedMethods_run_expr [OF exact func expr] replaceNode_def)
qed

text \<open>
  \<^verbatim>\<open>d.oldName(1)\<close>, whose callee overrides \<^verbatim>\<open>QFoo::oldName\<close>, becomes \<^verbatim>\<open>d.newName(1)\<close>.
\<close>

theorem PortRenamedMethods_override_witness:
  "(\<exists>Q \<in> set [''QFoo::oldName'']. \<exists>xs ys. ''::'' @ Q = xs @ ''QFoo'' @ ys)
   \<and> PortRenamedMethods_run logReplacement rename_options
        (rename_match ''expr'' [''QFoo::oldName'']) [] = Inr [rename_edit]"
proof -
  let ?M = "\<lparr> MethodRange = \<lparr>LocStart = FileLoc 3 0, LocEnd = FileLoc 3 20\<rparr>,
                  ParamDecls = [\<lparr>LocStart = FileLoc 3 13, LocEnd = FileLoc 3 17\<rparr>],
                  ThisDeclarationIsADefinition = False,
                  InlineBody = False,
                  OverriddenMethods = [''QFoo::oldName''] \<rparr>"
  let ?R = "rename_match ''expr'' [''QFoo::oldName'']"
  have "string_find ''QFoo'' (''::'' @ ''QFoo::oldName'') \<noteq> None" by simp
  then have "\<exists>xs ys. ''::'' @ ''QFoo::oldName'' = xs @ ''QFoo'' @ ys"
    by (simp only: string_find_contains)
  then have over: "\<exists>Q \<in> set (OverriddenMethods ?M).
      \<exists>xs ys. ''::'' @ Q = xs @ RenameMethod_Class rename_options @ ys"
    by (simp add: rename_options_fields)
  have calltext: "getText (SourceMgr ?R) \<lparr>LocStart = FileLoc 2 0, LocEnd = FileLoc 2 11\<rparr>
      = Inr ''d.oldName(1)''"
    by (simp add: rename_match_nodes rename_call_text)
  have ne: "''d.oldName(1)'' \<noteq> []" by simp
  have occ: "string_find (Rename_Old rename_options) ''d.oldName(1)'' = Some 2"
    by (simp add: rename_options_fields)
  note run = PortRenamedMethods_override [OF rename_match_nodes(3) rename_match_nodes(4)
      rename_match_nodes(5) rename_match_nodes(1) [OF disjI1 [OF refl]] over calltext ne occ,
      of logReplacement "[]", THEN conjunct2, THEN conjunct2, THEN conjunct2]
  have "PortRenamedMethods_run logReplacement rename_options ?R [] = Inr [rename_edit]"
    using run rename_replacement
    by (simp add: rename_match_nodes rename_options_fields logReplacement_def)
  moreover have "\<exists>Q \<in> set [''QFoo::oldName'']. \<exists>xs ys. ''::'' @ Q = xs @ ''QFoo'' @ ys"
    using over by (simp add: rename_options_fields)
  ultimately show ?thesis by blast
qed

text \<open>
  C3 as stated fails: the callee overrides \<^verbatim>\<open>QFooBar::oldName\<close> only, whose qualified name
  does not contain \<^verbatim>\<open>QFoo::oldName\<close>, and the call is renamed all the same.
\<close>

theorem PortRenamedMethods_substring_counterexample:
  "string_find (RenameMethod_Class rename_options @ ''::'' @ Rename_Old rename_options)
     (''::'' @ ''QFooBar::oldName'') = None
   \<and> PortRenamedMethods_run logReplacement rename_options
        (rename_match ''expr'' [''QFooBar::oldName'']) [] = Inr [rename_edit]"
proof -
  have "string_find (RenameMethod_Class rename_options @ ''::'' @ Rename_Old rename_options)
     (''::'' @ ''QFooBar::oldName'') = None"
    by (simp add: rename_options_def no_options_def)
  moreover have "PortRenamedMethods_run logReplacement rename_options
        (rename_match ''expr'' [''QFooBar::oldName'']) [] = Inr [rename_edit]"
    using rename_replacement
    by (simp add: PortRenamedMethods_run_def overriddenVirtual_def getNodeAs_MemberExpr_def
          getNodeAs_Expr_def rename_match_def rename_callee_def rename_options_def no_options_def
          rename_call_text string_replace_def replaceNode_def logReplacement_def)
  ultimately show ?thesis by blast
qed

text \<open>
  C4, as amended. For a matched call whose callee is a member access named \<open>OldName\<close>
  bound as \<open>expr\<close> only (case (b)), the callback does perform the override check: with
  a non-empty call text that contains \<open>OldName\<close>, the call is renamed when the qualified
  name of a method the callee overrides contains the configured class name, and no edit
  is registered otherwise. The branches with no override check are those of a callee
  bound as \<open>exact\<close> or \<open>func\<close>: there the call is renamed whatever the callee overrides.
\<close>

theorem PortRenamedMethods_unqualified_checked:
  fixes AddReplacement :: "'r AddReplacementFn"
  assumes call: "getNodeAs_Expr Result ''call'' = Some Call"
    and calltext: "getText (SourceMgr Result) Call = Inr ArgText" "ArgText \<noteq> []"
    and occ: "string_find (Rename_Old opts) ArgText = Some p"
  shows "(getNodeAs_MemberExpr Result ''exact'' = None \<and> getNodeAs_Expr Result ''func'' = None
            \<and> getNodeAs_MemberExpr Result ''expr'' = Some (E, MethodDecl M)
          \<longrightarrow> PortRenamedMethods_run AddReplacement opts Result Replace =
                (if \<exists>Q \<in> set (OverriddenMethods M).
                       \<exists>xs ys. ''::'' @ Q = xs @ RenameMethod_Class opts @ ys
                 then Inr (AddReplacement
                             (getFileEntryForID (SourceMgr Result) (getFileID (LocStart Call)))
                             (Replacement_node (SourceMgr Result) Call
                                (take p ArgText @ Rename_New opts
                                   @ drop (p + length (Rename_Old opts)) ArgText))
                             Replace)
                 else Inr Replace))
         \<and> (getNodeAs_MemberExpr Result ''exact'' \<noteq> None \<or> getNodeAs_Expr Result ''func'' \<noteq> None
          \<longrightarrow> PortRenamedMethods_run AddReplacement opts Result Replace =
                Inr (AddReplacement
                       (getFileEntryForID (SourceMgr Result) (getFileID (LocStart Call)))
                       (Replacement_node (SourceMgr Result) Call
                          (take p ArgText @ Rename_New opts
                             @ drop (p + length (Rename_Old opts)) ArgText))
                       Replace))"
proof (intro conjI impI)
  assume a: "getNodeAs_MemberExpr Result ''exact'' = None \<and> getNodeAs_Expr Result ''func'' = None
            \<and> getNodeAs_MemberExpr Result ''expr'' = Some (E, MethodDecl M)"
  then have run: "PortRenamedMethods_run AddReplacement opts Result Replace =
     (if \<not> overridden_loop (RenameMethod_Class opts) (OverriddenMethods M) then Inr Replace
      else Inr (replaceNode AddReplacement (SourceMgr Result) Call
                  (take p ArgText @ Rename_New opts @ drop (p + length (Rename_Old opts)) ArgText)
                  Replace))"
    using call calltext string_replace_found [OF occ]
    by (simp add: PortRenamedMethods_run_expr)
  show "PortRenamedMethods_run AddReplacement opts Result Replace =
                (if \<exists>Q \<in> set (OverriddenMethods M).
                       \<exists>xs ys. ''::'' @ Q = xs @ RenameMethod_Class opts @ ys
                 then Inr (AddReplacement
                             (getFileEntryForID (SourceMgr Result) (getFileID (LocStart Call)))
                             (Replacement_node (SourceMgr Result) Call
                                (take p ArgText @ Rename_New opts
                                   @ drop (p + length (Rename_Old opts)) ArgText))
                             Replace)
                 else Inr Replace)"
    unfolding run overridden_loop_iff by (simp add: replaceNode_def)
next
  assume "getNodeAs_MemberExpr Result ''exact'' \<noteq> None \<or> getNodeAs_Expr Result ''func'' \<noteq> None"
  then show "PortRenamedMethods_run AddReplacement opts Result Replace =
                Inr (AddReplacement
                       (getFileEntryForID (SourceMgr Result) (getFileID (LocStart Call)))
                       (Replacement_node (SourceMgr Result) Call
                          (take p ArgText @ Rename_New opts
                             @ drop (p + length (Rename_Old opts)) ArgText))
                       Replace)"
    using call calltext string_replace_found [OF occ]
    by (simp add: PortRenamedMethods_run_qualified replaceNode_def)
qed

text \<open>
  The same call is renamed when the callee overrides \<^verbatim>\<open>QFoo::oldName\<close>, left alone when
  it overrides \<^verbatim>\<open>QBar::oldName\<close>, and renamed when it is bound as \<open>exact\<close>.
\<close>

theorem PortRenamedMethods_unqualified_checked_witness:
  "PortRenamedMethods_run logReplacement rename_options
        (rename_match ''expr'' [''QFoo::oldName'']) [] = Inr [rename_edit]
   \<and> PortRenamedMethods_run logReplacement rename_options
        (rename_match ''expr'' [''QBar::oldName'']) [] = Inr []
   \<and> PortRenamedMethods_run logReplacement rename_options
        (rename_match ''exact'' []) [] = Inr [rename_edit]"
proof -
  have ne: "''d.oldName(1)'' \<noteq> []" by simp
  have occ: "string_find (Rename_Old rename_options) ''d.oldName(1)'' = Some 2"
    by (simp add: rename_options_fields)
  have calltext: "getText (SourceMgr (rename_match b ov)) \<lparr>LocStart = FileLoc 2 0, LocEnd = FileLoc 2 11\<rparr>
      = Inr ''d.oldName(1)''" for b ov
    by (simp add: rename_match_nodes rename_call_text)
  have yes: "\<exists>Q \<in> set [''QFoo::oldName'']. \<exists>xs ys. ''::'' @ Q = xs @ ''QFoo'' @ ys"
  proof -
    have "string_find ''QFoo'' (''::'' @ ''QFoo::oldName'') \<noteq> None" by simp
    then have "\<exists>xs ys. ''::'' @ ''QFoo::oldName'' = xs @ ''QFoo'' @ ys"
      by (simp only: string_find_contains)
    then show ?thesis by simp
  qed
  have no: "\<not> (\<exists>Q \<in> set [''QBar::oldName'']. \<exists>xs ys. ''::'' @ Q = xs @ ''QFoo'' @ ys)"
  proof -
    have "string_find ''QFoo'' (''::'' @ ''QBar::oldName'') = None" by simp
    then have "\<not> (\<exists>xs ys. ''::'' @ ''QBar::oldName'' = xs @ ''QFoo'' @ ys)"
      using string_find_contains [of "''QFoo''" "''::'' @ ''QBar::oldName''"] by simp
    then show ?thesis by simp
  qed
  note a = PortRenamedMethods_unqualified_checked
      [OF rename_match_nodes(1) [OF disjI1 [OF refl]] calltext ne occ, of "[''QFoo::oldName'']" _ _ logReplacement "[]",
       THEN conjunct1, rule_format, OF conjI [OF rename_match_nodes(3) conjI [OF rename_match_nodes(4) rename_match_nodes(5)]]]
  note b = PortRenamedMethods_unqualified_checked
      [OF rename_match_nodes(1) [OF disjI1 [OF refl]] calltext ne occ, of "[''QBar::oldName'']" _ _ logReplacement "[]",
       THEN conjunct1, rule_format, OF conjI [OF rename_match_nodes(3) conjI [OF rename_match_nodes(4) rename_match_nodes(5)]]]
  note c = PortRenamedMethods_unqualified_checked
      [OF rename_match_nodes(1) [OF disjI2 [OF refl]] calltext ne occ, of "[]" _ _ logReplacement "[]",
       THEN conjunct2, rule_format, OF disjI1 [OF rename_match_nodes(6)]]
  have r1: "PortRenamedMethods_run logReplacement rename_options
        (rename_match ''expr'' [''QFoo::oldName'']) [] = Inr [rename_edit]"
    using a yes rename_replacement
    by (simp add: rename_match_nodes rename_options_fields logReplacement_def)
  have r2: "PortRenamedMethods_run logReplacement rename_options
        (rename_match ''expr'' [''QBar::oldName'']) [] = Inr []"
    using b no by (simp add: rename_match_nodes rename_options_fields)
  have r3: "PortRenamedMethods_run logReplacement rename_options
        (rename_match ''exact'' []) [] = Inr [rename_edit]"
    using c rename_replacement
    by (simp add: rename_match_nodes rename_options_fields logReplacement_def)
  from r1 r2 r3 show ?thesis by blast
qed

text \<open>
  C4 as stated fails: a match of case (b) whose callee overrides nothing registers no
  edit, although the call text is extracted and contains \<open>OldName\<close>.
\<close>

theorem PortRenamedMethods_unqualified_counterexample:
  "getNodeAs_MemberExpr (rename_match ''expr'' []) ''expr''
     = Some (\<lparr>LocStart = FileLoc 2 0, LocEnd = FileLoc 2 2\<rparr>, rename_callee [])
   \<and> getNodeAs_MemberExpr (rename_match ''expr'' []) ''exact'' = None
   \<and> getNodeAs_Expr (rename_match ''expr'' []) ''func'' = None
   \<and> getText rename_sm \<lparr>LocStart = FileLoc 2 0, LocEnd = FileLoc 2 11\<rparr> = Inr ''d.oldName(1)''
   \<and> PortRenamedMethods_run logReplacement rename_options (rename_match ''expr'' []) [] = Inr []"
  by (simp add: PortRenamedMethods_run_def overriddenVirtual_def getNodeAs_MemberExpr_def
        getNodeAs_Expr_def rename_match_def rename_callee_def rename_options_def no_options_def
        rename_call_text)

text \<open>
  C8. The method-rename callback never reads \<^verbatim>\<open>CreateIfdefs\<close>: its result is the same with
  the dual mode on or off. It ends in an error, or registers nothing, or registers one
  edit, the replacement of the matched call; applied to the file, that edit changes the
  text of the call and leaves what is before and after it as it was.
\<close>

theorem PortRenamedMethods_no_wrapper:
  fixes AddReplacement :: "'r AddReplacementFn"
  shows "PortRenamedMethods_run AddReplacement (opts\<lparr>CreateIfdefs := b\<rparr>) Result Replace
           = PortRenamedMethods_run AddReplacement opts Result Replace
   \<and> ((\<exists>err. PortRenamedMethods_run AddReplacement opts Result Replace = Inl err)
      \<or> PortRenamedMethods_run AddReplacement opts Result Replace = Inr Replace
      \<or> (\<exists>Call ArgText p f s buf.
            getNodeAs_Expr Result ''call'' = Some Call
          \<and> getText (SourceMgr Result) Call = Inr ArgText \<and> ArgText \<noteq> []
          \<and> string_find (Rename_Old opts) ArgText = Some p
          \<and> PortRenamedMethods_run AddReplacement opts Result Replace =
              Inr (AddReplacement (getFileEntryForID (SourceMgr Result) (getFileID (LocStart Call)))
                     (Replacement_node (SourceMgr Result) Call
                        (take p ArgText @ Rename_New opts
                           @ drop (p + length (Rename_Old opts)) ArgText))
                     Replace)
          \<and> getSpellingLoc (LocStart Call) = FileLoc f s
          \<and> Buffers (SourceMgr Result) f = Some buf
          \<and> buf = take (nat s) buf @ ArgText @ drop (nat s + length ArgText) buf
          \<and> applyReplacement
                (Replacement_node (SourceMgr Result) Call
                   (take p ArgText @ Rename_New opts @ drop (p + length (Rename_Old opts)) ArgText))
                buf
              = take (nat s) buf
                  @ (take p ArgText @ Rename_New opts @ drop (p + length (Rename_Old opts)) ArgText)
                  @ drop (nat s + length ArgText) buf))"
proof
  have fields: "RenameMethod_Class (opts\<lparr>CreateIfdefs := b\<rparr>) = RenameMethod_Class opts"
    "Rename_Old (opts\<lparr>CreateIfdefs := b\<rparr>) = Rename_Old opts"
    "Rename_New (opts\<lparr>CreateIfdefs := b\<rparr>) = Rename_New opts"
    by simp_all
  show "PortRenamedMethods_run AddReplacement (opts\<lparr>CreateIfdefs := b\<rparr>) Result Replace
           = PortRenamedMethods_run AddReplacement opts Result Replace"
    unfolding PortRenamedMethods_run_def overriddenVirtual_def fields by (rule refl)
next
  let ?run = "PortRenamedMethods_run AddReplacement opts Result Replace"
  from PortRenamedMethods_run_outcomes [of AddReplacement opts Result Replace]
  consider (err) err where "?run = Inl err" | (skip) "?run = Inr Replace"
    | (edit) Call ArgText p where "getNodeAs_Expr Result ''call'' = Some Call"
          "getText (SourceMgr Result) Call = Inr ArgText" "ArgText \<noteq> []"
          "string_find (Rename_Old opts) ArgText = Some p"
          "?run = Inr (AddReplacement (getFileEntryForID (SourceMgr Result) (getFileID (LocStart Call)))
                     (Replacement_node (SourceMgr Result) Call
                        (take p ArgText @ Rename_New opts
                           @ drop (p + length (Rename_Old opts)) ArgText))
                     Replace)"
    by blast
  then show "(\<exists>err. ?run = Inl err) \<or> ?run = Inr Replace
      \<or> (\<exists>Call ArgText p f s buf.
            getNodeAs_Expr Result ''call'' = Some Call
          \<and> getText (SourceMgr Result) Call = Inr ArgText \<and> ArgText \<noteq> []
          \<and> string_find (Rename_Old opts) ArgText = Some p
          \<and> ?run =
              Inr (AddReplacement (getFileEntryForID (SourceMgr Result) (getFileID (LocStart Call)))
                     (Replacement_node (SourceMgr Result) Call
                        (take p ArgText @ Rename_New opts
                           @ drop (p + length (Rename_Old opts)) ArgText))
                     Replace)
          \<and> getSpellingLoc (LocStart Call) = FileLoc f s
          \<and> Buffers (SourceMgr Result) f = Some buf
          \<and> buf = take (nat s) buf @ ArgText @ drop (nat s + length ArgText) buf
          \<and> applyReplacement
                (Replacement_node (SourceMgr Result) Call
                   (take p ArgText @ Rename_New opts @ drop (p + length (Rename_Old opts)) ArgText))
                buf
              = take (nat s) buf
                  @ (take p ArgText @ Rename_New opts @ drop (p + length (Rename_Old opts)) ArgText)
                  @ drop (nat s + length ArgText) buf)"
  proof cases
    case err
    then show ?thesis by blast
  next
    case skip
    then show ?thesis by blast
  next
    case edit
    from Replacement_node_replaces_text [OF edit(2,3),
        of "take p ArgText @ Rename_New opts @ drop (p + length (Rename_Old opts)) ArgText"]
    obtain f s buf where "getSpellingLoc (LocStart Call) = FileLoc f s"
        "Buffers (SourceMgr Result) f = Some buf"
        "buf = take (nat s) buf @ ArgText @ drop (nat s + length ArgText) buf"
        "applyReplacement
                (Replacement_node (SourceMgr Result) Call
                   (take p ArgText @ Rename_New opts @ drop (p + length (Rename_Old opts)) ArgText))
                buf
              = take (nat s) buf
                  @ (take p ArgText @ Rename_New opts @ drop (p + length (Rename_Old opts)) ArgText)
                  @ drop (nat s + length ArgText) buf"
      by blast
    with edit show ?thesis by blast
  qed
qed

text \<open>With the dual mode on, the rename of \<^verbatim>\<open>d.oldName(1)\<close> registers the one edit and no wrapper.\<close>

theorem PortRenamedMethods_no_wrapper_witness:
  "PortRenamedMethods_run logReplacement (rename_options\<lparr>CreateIfdefs := True\<rparr>)
     (rename_match ''expr'' [''QFoo::oldName'']) [] = Inr [rename_edit]
   \<and> applyReplacement (snd rename_edit) ''d.oldName(1);\<newline>'' = ''d.newName(1);\<newline>''"
proof -
  have "PortRenamedMethods_run logReplacement rename_options
          (rename_match ''expr'' [''QFoo::oldName'']) [] = Inr [rename_edit]"
    using rename_replacement
    by (simp add: PortRenamedMethods_run_def overriddenVirtual_def getNodeAs_MemberExpr_def
          getNodeAs_Expr_def rename_match_def rename_callee_def rename_options_def no_options_def
          rename_call_text string_replace_def replaceNode_def logReplacement_def)
  with PortRenamedMethods_no_wrapper [where AddReplacement = logReplacement
      and opts = rename_options and b = True
      and Result = "rename_match ''expr'' [''QFoo::oldName'']" and Replace = "[]", THEN conjunct1]
  have "PortRenamedMethods_run logReplacement (rename_options\<lparr>CreateIfdefs := True\<rparr>)
     (rename_match ''expr'' [''QFoo::oldName'']) [] = Inr [rename_edit]"
    by simp
  moreover have "applyReplacement (snd rename_edit) ''d.oldName(1);\<newline>'' = ''d.newName(1);\<newline>''"
    by (simp add: rename_edit_def applyReplacement_def)
  ultimately show ?thesis by blast
qed

section \<open>The argument-removal rule\<close>

lemma Replacement_range_FileLoc:
  "Replacement_range sm (FileLoc f b) (FileLoc f e) t =
     \<lparr> FilePath = (case FileEntries sm f of None \<Rightarrow> ''invalid-location'' | Some Entry \<Rightarrow> Entry),
       Offset = b, Length = e - b, ReplacementText = t \<rparr>"
  by (simp add: Replacement_range_def setFromSourceRange_def setFromSourceLocation_def
        getRangeSize_def Let_def getFileEntryForID_def)

text \<open>
  When the argument before the sentinel is one token (the file offset of its start is the
  offset of its last token), the span removed runs from the end of that token to the end
  of the sentinel.
\<close>

lemma RemoveArgument_one_token:
  fixes AddReplacement :: "'r AddReplacementFn"
  assumes key: "getNodeAs_Expr Result ''prevArg'' = Some Key"
    and lang: "getNodeAs_Expr Result ''arg'' = Some Lang"
    and call: "getNodeAs_Expr Result ''call'' = Some Call"
    and kend: "getSpellingLoc (LocEnd Key) = FileLoc f ke"
    and lend: "getSpellingLoc (LocEnd Lang) = FileLoc f le"
    and kafter: "Start = ke + int (MeasureTokenLength (SourceMgr Result) f ke)"
    and lafter: "End = le + int (MeasureTokenLength (SourceMgr Result) f le)"
    and order: "Start \<le> End"
    and one: "getFileOffset (LocStart Key) = ke"
    and edit: "removal =
        \<lparr> FilePath = (case FileEntries (SourceMgr Result) f of
                         None \<Rightarrow> ''invalid-location'' | Some Entry \<Rightarrow> Entry),
          Offset = Start, Length = End - Start, ReplacementText = [] \<rparr>"
  shows "RemoveArgument_run AddReplacement opts Result Replace =
           (if CreateIfdefs opts
            then insertIfdef AddReplacement (SourceMgr Result) Call
                   (AddReplacement (getFileEntryForID (SourceMgr Result) f) removal Replace)
            else Inr (AddReplacement (getFileEntryForID (SourceMgr Result) f) removal Replace))"
proof -
  have r: "Replacement_range (SourceMgr Result)
             (FileLoc f (ke + - getFileOffset (LocStart Key) + Start))
             (FileLoc f (ke + - getFileOffset (LocStart Key) + End)) [] = removal"
    unfolding Replacement_range_FileLoc edit one by simp
  show ?thesis
    using key lang call kend lend order r
    by (simp add: RemoveArgument_run_def Let_def kafter [symmetric] lafter [symmetric])
qed

text \<open>\<^verbatim>\<open>f(a, 0)\<close> becomes \<^verbatim>\<open>f(a)\<close>.\<close>

lemma RemoveArgument_one_token_example:
  "RemoveArgument_run logReplacement no_options sentinel_match [] =
     Inr [(Some ''/src/f.cpp'',
           \<lparr>FilePath = ''/src/f.cpp'', Offset = 3, Length = 3, ReplacementText = []\<rparr>)]
   \<and> applyReplacement \<lparr>FilePath = ''/src/f.cpp'', Offset = 3, Length = 3, ReplacementText = []\<rparr>
         ''f(a, 0);\<newline>'' = ''f(a);\<newline>''"
proof -
  have "RemoveArgument_run logReplacement no_options sentinel_match [] =
     Inr [(Some ''/src/f.cpp'',
           \<lparr>FilePath = ''/src/f.cpp'', Offset = 3, Length = 3, ReplacementText = []\<rparr>)]"
    by (simp add: RemoveArgument_run_def Let_def getNodeAs_Expr_def sentinel_match_def
          Replacement_range_FileLoc getFileOffset_def getFileEntryForID_def logReplacement_def
          sentinel_sm_def no_options_def)
  moreover have "applyReplacement
         \<lparr>FilePath = ''/src/f.cpp'', Offset = 3, Length = 3, ReplacementText = []\<rparr>
         ''f(a, 0);\<newline>'' = ''f(a);\<newline>''"
    by (simp add: applyReplacement_def)
  ultimately show ?thesis by blast
qed

text \<open>
  C6 holds for a one-token argument before the sentinel only. For a match whose two
  arguments end in the same file, the callback registers the removal of a span as long
  as the one from the end of the last token of the preceding argument (\<open>Start\<close>) to the
  end of the last token of the sentinel (\<open>End\<close>), but moved by \<open>shift\<close>: the offset of
  the last token of the preceding argument minus the file offset of its start. The
  shift is 0 when the preceding argument is one token, and the span is then the one C6
  names; for a longer argument the removed span lies after it.
\<close>

theorem RemoveArgument_span:
  fixes AddReplacement :: "'r AddReplacementFn"
  assumes key: "getNodeAs_Expr Result ''prevArg'' = Some Key"
    and lang: "getNodeAs_Expr Result ''arg'' = Some Lang"
    and call: "getNodeAs_Expr Result ''call'' = Some Call"
    and kend: "getSpellingLoc (LocEnd Key) = FileLoc f ke"
    and lend: "getSpellingLoc (LocEnd Lang) = FileLoc f le"
    and kafter: "Start = ke + int (MeasureTokenLength (SourceMgr Result) f ke)"
    and lafter: "End = le + int (MeasureTokenLength (SourceMgr Result) f le)"
    and order: "Start \<le> End"
    and shift: "shift = ke - getFileOffset (LocStart Key)"
    and edit: "removal =
        \<lparr> FilePath = (case FileEntries (SourceMgr Result) f of
                         None \<Rightarrow> ''invalid-location'' | Some Entry \<Rightarrow> Entry),
          Offset = Start + shift, Length = End - Start, ReplacementText = [] \<rparr>"
  shows "RemoveArgument_run AddReplacement opts Result Replace =
           (if CreateIfdefs opts
            then insertIfdef AddReplacement (SourceMgr Result) Call
                   (AddReplacement (getFileEntryForID (SourceMgr Result) f) removal Replace)
            else Inr (AddReplacement (getFileEntryForID (SourceMgr Result) f) removal Replace))"
proof -
  have r: "Replacement_range (SourceMgr Result)
             (FileLoc f (ke + - getFileOffset (LocStart Key) + Start))
             (FileLoc f (ke + - getFileOffset (LocStart Key) + End)) [] = removal"
    unfolding Replacement_range_FileLoc edit shift by simp
  show ?thesis
    using key lang call kend lend order r
    by (simp add: RemoveArgument_run_def Let_def kafter [symmetric] lafter [symmetric])
qed

text \<open>
  For \<^verbatim>\<open>img.text(k.data(), 0); int y = 1;\<close> the callback removes the three bytes at 24,
  inside \<^verbatim>\<open>int y\<close>, and not the three bytes at 17, which are \<^verbatim>\<open>, 0\<close>.
\<close>

theorem RemoveArgument_span_witness:
  "RemoveArgument_run logReplacement no_options image_match [] =
     Inr [(Some ''/src/img.cpp'',
           \<lparr>FilePath = ''/src/img.cpp'', Offset = 24, Length = 3, ReplacementText = []\<rparr>)]
   \<and> applyReplacement
         \<lparr>FilePath = ''/src/img.cpp'', Offset = 24, Length = 3, ReplacementText = []\<rparr>
         ''img.text(k.data(), 0); int y = 1;\<newline>''
       = ''img.text(k.data(), 0); iy = 1;\<newline>''
   \<and> applyReplacement
         \<lparr>FilePath = ''/src/img.cpp'', Offset = 17, Length = 3, ReplacementText = []\<rparr>
         ''img.text(k.data(), 0); int y = 1;\<newline>''
       = ''img.text(k.data()); int y = 1;\<newline>''"
proof -
  let ?Key = "\<lparr>LocStart = FileLoc 2 9, LocEnd = FileLoc 2 16\<rparr>"
  let ?Lang = "\<lparr>LocStart = FileLoc 2 19, LocEnd = FileLoc 2 19\<rparr>"
  let ?Call = "\<lparr>LocStart = FileLoc 2 0, LocEnd = FileLoc 2 20\<rparr>"
  have key: "getNodeAs_Expr image_match ''prevArg'' = Some ?Key"
    and lang: "getNodeAs_Expr image_match ''arg'' = Some ?Lang"
    and call: "getNodeAs_Expr image_match ''call'' = Some ?Call"
    by (simp_all add: getNodeAs_Expr_def image_match_def)
  have kend: "getSpellingLoc (LocEnd ?Key) = FileLoc 2 16"
    and lend: "getSpellingLoc (LocEnd ?Lang) = FileLoc 2 19" by simp_all
  have kafter: "17 = 16 + int (MeasureTokenLength (SourceMgr image_match) 2 16)"
    and lafter: "20 = 19 + int (MeasureTokenLength (SourceMgr image_match) 2 19)"
    by (simp_all add: image_match_def image_sm_def)
  have order: "(17::int) \<le> 20" by simp
  have shift: "7 = 16 - getFileOffset (LocStart ?Key)" by (simp add: getFileOffset_def)
  have edit: "\<lparr>FilePath = ''/src/img.cpp'', Offset = 24, Length = 3, ReplacementText = []\<rparr> =
        \<lparr> FilePath = (case FileEntries (SourceMgr image_match) 2 of
                         None \<Rightarrow> ''invalid-location'' | Some Entry \<Rightarrow> Entry),
          Offset = 17 + 7, Length = 20 - 17, ReplacementText = [] \<rparr>"
    by (simp add: image_match_def image_sm_def)
  note run = RemoveArgument_span [OF key lang call kend lend kafter lafter order shift edit,
      of logReplacement no_options "[]"]
  have e: "getFileEntryForID (SourceMgr image_match) 2 = Some ''/src/img.cpp''"
    by (simp add: getFileEntryForID_def image_match_def image_sm_def)
  have "RemoveArgument_run logReplacement no_options image_match [] =
     Inr [(Some ''/src/img.cpp'',
           \<lparr>FilePath = ''/src/img.cpp'', Offset = 24, Length = 3, ReplacementText = []\<rparr>)]"
    using run e by (simp add: no_options_def logReplacement_def)
  moreover have "applyReplacement
         \<lparr>FilePath = ''/src/img.cpp'', Offset = 24, Length = 3, ReplacementText = []\<rparr>
         ''img.text(k.data(), 0); int y = 1;\<newline>''
       = ''img.text(k.data(), 0); iy = 1;\<newline>''"
    by (simp add: applyReplacement_def)
  moreover have "applyReplacement
         \<lparr>FilePath = ''/src/img.cpp'', Offset = 17, Length = 3, ReplacementText = []\<rparr>
         ''img.text(k.data(), 0); int y = 1;\<newline>''
       = ''img.text(k.data()); int y = 1;\<newline>''"
    by (simp add: applyReplacement_def)
  ultimately show ?thesis by blast
qed

section \<open>Empty extractions\<close>

text \<open>
  \<open>getText\<close> returns the empty string for an invalid start or end, for a start and an end
  in different files, and for an end before the start (\<open>getText_invalid\<close>,
  \<open>getText_different_files\<close>, \<open>getText_inverted\<close> above). The callbacks of the escape,
  signature, atomics, enum and method-rename rules return without an edit on an empty
  extraction.
\<close>

lemma callbacks_skip_empty_text:
  fixes AddReplacement :: "'r AddReplacementFn"
  assumes "getNodeAs_Expr Result ''call'' = Some Call"
    and "getText (SourceMgr Result) Call = Inr []"
  shows "PortMetaMethods_run AddReplacement opts Result Replace = Inr Replace"
    and "PortAtomic_run AddReplacement opts Result Replace = Inr Replace"
    and "PortEnum_run AddReplacement opts Result Replace = Inr Replace"
    and "\<exists>err. PortRenamedMethods_run AddReplacement opts Result Replace = Inl err
         \<or> PortRenamedMethods_run AddReplacement opts Result Replace = Inr Replace"
  using assms
  by (auto simp: PortMetaMethods_run_def PortAtomic_run_def PortEnum_run_def
        PortRenamedMethods_run_def split: sum.splits)

lemma PortQtEscape_skips_empty_text:
  fixes AddReplacement :: "'r AddReplacementFn"
  assumes "(if getNodeAs_Expr Result ''ctor'' \<noteq> None
            then getText_ptr (SourceMgr Result) (getNodeAs_Expr Result ''ctor'')
            else if getNodeAs_Expr Result ''expr'' \<noteq> None
            then getText_ptr (SourceMgr Result) (getNodeAs_Expr Result ''expr'')
            else getText_ptr (SourceMgr Result) (getNodeAs_Expr Result ''operator'')) = Inr []"
  shows "PortQtEscape4To5_run AddReplacement opts Result Replace = Inr Replace"
  using assms by (simp add: PortQtEscape4To5_run_def Let_def)

text \<open>
  C1 fails for the dataChanged rule, which does not test the extracted text: for a
  matched declaration under the source root whose last parameter is extracted as the
  empty string, the callback still registers the replacement of that parameter, by the
  new parameter alone.
\<close>

theorem PortView2_keeps_empty_text:
  fixes AddReplacement :: "'r AddReplacementFn"
  assumes decl: "getNodeAs_CXXMethodDecl Result ''funcDecl'' = Some F"
    and start: "getSpellingLoc (LocStart (MethodRange F)) = FileLoc f n"
    and entry: "getFileEntryForID (SourceMgr Result) f = Some location"
    and root: "startswith location (SourceDir opts)"
    and params: "ParamDecls F \<noteq> []" "length (ParamDecls F) < 2 ^ 32"
    and ptext: "getText (SourceMgr Result) (last (ParamDecls F)) = Inr []"
    and newtext: "NewText = '', const QVector<int> &''
                @ (if \<not> ThisDeclarationIsADefinition F \<or> InlineBody F
                   then '' = QVector<int>()'' else [])"
  shows "PortView2_run AddReplacement opts Result Replace =
           (if CreateIfdefs opts
            then insertIfdef AddReplacement (SourceMgr Result) (last (ParamDecls F))
                   (AddReplacement
                      (getFileEntryForID (SourceMgr Result) (getFileID (LocStart (last (ParamDecls F)))))
                      (Replacement_node (SourceMgr Result) (last (ParamDecls F)) NewText) Replace)
            else Inr (AddReplacement
                      (getFileEntryForID (SourceMgr Result) (getFileID (LocStart (last (ParamDecls F)))))
                      (Replacement_node (SourceMgr Result) (last (ParamDecls F)) NewText) Replace))"
  using decl start entry root ptext newtext getParamDecl_last [OF params]
  by (simp add: PortView2_run_def Let_def replaceNode_def)

text \<open>
  A last parameter whose start is spelled in file 2 and whose end in file 3: its text is
  empty and the edit is registered.
\<close>

theorem PortView2_keeps_empty_text_witness:
  "getText view_sm \<lparr>LocStart = FileLoc 2 39, LocEnd = MacroLoc 4 0 (FileLoc 3 0)\<rparr> = Inr []
   \<and> PortView2_run logReplacement no_options crossing_param_match [] =
     Inr [(Some ''/src/view.h'',
           \<lparr>FilePath = ''/src/view.h'', Offset = 39, Length = - 1,
            ReplacementText = '', const QVector<int> & = QVector<int>()''\<rparr>)]"
proof -
  let ?P = "\<lparr>LocStart = FileLoc 2 39, LocEnd = MacroLoc 4 0 (FileLoc 3 0)\<rparr>"
  have decl: "getNodeAs_CXXMethodDecl crossing_param_match ''funcDecl'' = Some crossing_param_decl"
    by (simp add: getNodeAs_CXXMethodDecl_def crossing_param_match_def)
  have start: "getSpellingLoc (LocStart (MethodRange crossing_param_decl)) = FileLoc 2 0"
    by (simp add: crossing_param_decl_def)
  have entry: "getFileEntryForID (SourceMgr crossing_param_match) 2 = Some ''/src/view.h''"
    by (simp add: getFileEntryForID_def crossing_param_match_def view_sm_def)
  have root: "startswith ''/src/view.h'' (SourceDir no_options)"
    by (simp add: startswith_def no_options_def)
  have params: "ParamDecls crossing_param_decl \<noteq> []" "length (ParamDecls crossing_param_decl) < 2 ^ 32"
    by (simp_all add: crossing_param_decl_def)
  have lastp: "last (ParamDecls crossing_param_decl) = ?P" by (simp add: crossing_param_decl_def)
  have empty: "getText view_sm ?P = Inr []"
    by (simp add: getText_FileLoc view_sm_def)
  have ptext: "getText (SourceMgr crossing_param_match) (last (ParamDecls crossing_param_decl)) = Inr []"
    using empty by (simp add: lastp crossing_param_match_def)
  have newtext: "'', const QVector<int> & = QVector<int>()'' = '', const QVector<int> &''
        @ (if \<not> ThisDeclarationIsADefinition crossing_param_decl \<or> InlineBody crossing_param_decl
           then '' = QVector<int>()'' else [])"
    by (simp add: crossing_param_decl_def)
  note run = PortView2_keeps_empty_text [OF decl start entry root params ptext newtext,
      of logReplacement "[]"]
  have r: "Replacement_node (SourceMgr crossing_param_match) ?P
             '', const QVector<int> & = QVector<int>()'' =
      \<lparr>FilePath = ''/src/view.h'', Offset = 39, Length = - 1,
       ReplacementText = '', const QVector<int> & = QVector<int>()''\<rparr>"
    by (simp add: Replacement_node_def setFromSourceRange_def setFromSourceLocation_def
          getRangeSize_def Let_def getFileEntryForID_def crossing_param_match_def view_sm_def)
  have e: "getFileEntryForID (SourceMgr crossing_param_match) (getFileID (LocStart ?P)) = Some ''/src/view.h''"
    by (simp add: getFileEntryForID_def getFileID_def crossing_param_match_def view_sm_def)
  have "PortView2_run logReplacement no_options crossing_param_match [] =
     Inr [(Some ''/src/view.h'',
           \<lparr>FilePath = ''/src/view.h'', Offset = 39, Length = - 1,
            ReplacementText = '', const QVector<int> & = QVector<int>()''\<rparr>)]"
    using run r e by (simp add: lastp no_options_def logReplacement_def)
  with empty show ?thesis by blast
qed

section \<open>The wrapper of the dual mode\<close>

lemma getSpellingColumnNumber_FileLoc:
  assumes "Buffers sm f = Some buf" "0 \<le> s" "s \<le> int (length buf)"
  shows "getSpellingColumnNumber sm (FileLoc f s) = Some (nat s - line_start buf (nat s) + 1)"
  using assms by (simp add: getSpellingColumnNumber_def getFileID_def getFileOffset_def)

lemma StartOfLine_FileLoc:
  assumes "0 \<le> s"
  shows "getLocWithOffset (FileLoc f s) (- int (nat s - line_start buf (nat s) + 1) + 1)
           = FileLoc f (int (line_start buf (nat s)))"
  using assms line_start_le [of buf "nat s"] by simp

lemma Replacement_at_FileLoc:
  "Replacement_at sm (FileLoc f n) len t =
     \<lparr> FilePath = (case FileEntries sm f of None \<Rightarrow> ''invalid-location'' | Some Entry \<Rightarrow> Entry),
       Offset = n, Length = len, ReplacementText = t \<rparr>"
  by (simp add: Replacement_at_def setFromSourceLocation_def getFileEntryForID_def)

lemma insertIfdef_wraps_general:
  fixes AddReplacement :: "'r AddReplacementFn"
  assumes start: "getSpellingLoc (LocStart node) = FileLoc f s"
    and endloc: "getSpellingLoc (LocEnd node) = FileLoc f e"
    and buf: "Buffers sm f = Some buf"
    and s: "0 \<le> s" "s \<le> int (length buf)"
    and tokend: "int (line_start buf (nat s)) \<le> e + int (MeasureTokenLength sm f e)"
    and k: "nat (e + int (MeasureTokenLength sm f e)) \<le> k" "k < length buf" "buf ! k = CHR 0x0A"
    and first: "\<forall>j. nat (e + int (MeasureTokenLength sm f e)) \<le> j \<and> j < k \<longrightarrow> buf ! j \<noteq> CHR 0x0A"
  shows "insertIfdef AddReplacement sm node Replace =
     Inr (AddReplacement (getFileEntryForID sm f)
            (Replacement_at sm (FileLoc f (int k)) 0 ''\<newline>#endif'')
            (AddReplacement (getFileEntryForID sm f)
               (Replacement_at sm (FileLoc f (int (line_start buf (nat s)))) 0
                  (''#if QT_VERSION < QT_VERSION_CHECK(5, 0, 0)\<newline>''
                     @ take (k - line_start buf (nat s)) (drop (line_start buf (nat s)) buf)
                     @ ''\<newline>#else\<newline>''))
               Replace))"
proof -
  define ls where "ls = line_start buf (nat s)"
  define e' where "e' = e + int (MeasureTokenLength sm f e)"
  have ls_le: "ls \<le> nat s" unfolding ls_def by (rule line_start_le)
  have col: "getSpellingColumnNumber sm (FileLoc f s) = Some (nat s - ls + 1)"
    unfolding ls_def using buf s by (rule getSpellingColumnNumber_FileLoc)
  have sol: "getLocWithOffset (FileLoc f s) (- int (nat s - ls + 1) + 1) = FileLoc f (int ls)"
    unfolding ls_def using s(1) by (rule StartOfLine_FileLoc)
  have cd: "getCharacterData sm (FileLoc f (int ls)) = Some (buf, int ls)"
    using buf by (simp add: getCharacterData_def getFileID_def getFileOffset_def)
  have e'_ge: "int ls \<le> e'" using tokend by (simp add: ls_def e'_def)
  have nat_diff: "nat (e' - int ls) = nat e' - ls" using e'_ge by linarith
  have le_k: "ls + (nat e' - ls) \<le> k" using k(1) e'_ge by (simp add: e'_def)
  have "scan_eol (buf, int ls) (nat e' - ls) = Inr (k - nat (int ls))"
  proof (rule scan_eol_finds)
    show "0 \<le> int ls" by simp
    show "nat (int ls) + (nat e' - ls) \<le> k" using le_k by simp
    show "k < length buf" by fact
    show "buf ! k = CHR 0x0A" by fact
    show "\<forall>j. nat (int ls) + (nat e' - ls) \<le> j \<and> j < k \<longrightarrow> buf ! j \<noteq> CHR 0x0A"
      using first e'_ge by (auto simp: e'_def)
  qed
  then have scan: "scan_eol (buf, int ls) (nat (e' - int ls)) = Inr (k - ls)"
    by (simp add: nat_diff)
  have ls_k: "ls \<le> k" using le_k by simp
  have str: "std_string (buf, int ls) (int (k - ls)) = Inr (take (k - ls) (drop ls buf))"
  proof -
    have "nat (int (k - ls)) = k - ls" by simp
    moreover have "int ls + int (k - ls) \<le> int (length buf)" using ls_k k(2) by linarith
    ultimately show ?thesis by (simp del: of_nat_diff)
  qed
  have eol: "getLocWithOffset (FileLoc f (int ls)) (int (k - ls)) = FileLoc f (int k)"
    using ls_k by simp
  show ?thesis
    unfolding insertIfdef_def Let_def start endloc
    by (simp only: isValid.simps col sol cd getLocForEndOfToken.simps getDecomposedLoc.simps
          fst_conv snd_conv e'_def [symmetric] scan str eol ls_def [symmetric]
          option.case sum.case simp_thms if_False if_True)
       (use e'_ge in simp)
qed

lemma insertIfdef_buffer_present:
  "getSpellingColumnNumber sm loc = Some col \<Longrightarrow>
     getCharacterData sm (getLocWithOffset loc d) \<noteq> None"
  by (cases loc)
     (auto simp: getSpellingColumnNumber_def getCharacterData_def getFileID_def
        split: option.splits if_splits)

text \<open>
  With no line feed between the end of the node and the end of the buffer, the loop of
  \<open>insertIfdef\<close> runs out of the buffer.
\<close>

lemma insertIfdef_no_line_feed:
  fixes AddReplacement :: "'r AddReplacementFn"
  assumes start: "getSpellingLoc (LocStart node) = FileLoc f s"
    and endloc: "getSpellingLoc (LocEnd node) = FileLoc f e"
    and buf: "Buffers sm f = Some buf"
    and s: "0 \<le> s" "s \<le> int (length buf)"
    and tokend: "int (line_start buf (nat s)) \<le> e + int (MeasureTokenLength sm f e)"
    and none: "\<forall>j. nat (e + int (MeasureTokenLength sm f e)) \<le> j \<and> j < length buf
                 \<longrightarrow> buf ! j \<noteq> CHR 0x0A"
  shows "insertIfdef AddReplacement sm node Replace = Inl BufferOverrun"
proof -
  define ls where "ls = line_start buf (nat s)"
  define e' where "e' = e + int (MeasureTokenLength sm f e)"
  have col: "getSpellingColumnNumber sm (FileLoc f s) = Some (nat s - ls + 1)"
    unfolding ls_def using buf s by (rule getSpellingColumnNumber_FileLoc)
  have sol: "getLocWithOffset (FileLoc f s) (- int (nat s - ls + 1) + 1) = FileLoc f (int ls)"
    unfolding ls_def using s(1) by (rule StartOfLine_FileLoc)
  have cd: "getCharacterData sm (FileLoc f (int ls)) = Some (buf, int ls)"
    using buf by (simp add: getCharacterData_def getFileID_def getFileOffset_def)
  have e'_ge: "int ls \<le> e'" using tokend by (simp add: ls_def e'_def)
  have "nat (int ls + int (nat (e' - int ls))) = nat e'" using e'_ge by simp
  then have scan: "scan_eol (buf, int ls) (nat (e' - int ls)) = Inl BufferOverrun"
    using none by (intro scan_eol_overrun) (simp add: e'_def)
  show ?thesis
    unfolding insertIfdef_def Let_def start endloc
    by (simp only: isValid.simps col sol cd getLocForEndOfToken.simps getDecomposedLoc.simps
          fst_conv snd_conv e'_def [symmetric] scan ls_def [symmetric]
          option.case sum.case simp_thms if_False if_True)
       (use e'_ge in simp)
qed

text \<open>
  C2, as amended. \<open>insertIfdef\<close>, which every wrapping callback calls after its own edit
  when the dual mode is on, registers exactly two insertions when the start and end of
  the node are spelled in the same file \<open>f\<close>, the start lies in the buffer, the end of the
  last token \<open>te\<close> is not before the start \<open>ls\<close> of the line of the node's start, and
  \<open>k\<close> is the first line feed at or after \<open>te\<close>: at \<open>ls\<close> the guard line, the text of
  the buffer from \<open>ls\<close> to \<open>k\<close> and \<^verbatim>\<open>#else\<close>, and at \<open>k\<close> a line feed and \<^verbatim>\<open>#endif\<close>.
  \<open>ls\<close> is the first column of the line that contains the start of the node. With an
  edit \<open>d\<close> of the rule inside \<open>[ls, k]\<close>, the three edits give the guard line, one copy
  of the original text, \<^verbatim>\<open>#else\<close>, one copy of the text as \<open>d\<close> rewrites it, and \<^verbatim>\<open>#endif\<close>.
  (When \<open>insertIfdef\<close>'s own checks fail it registers nothing, whatever the callback has
  registered before; a buffer with no line feed after the node is left out here.)
\<close>

theorem insertIfdef_wraps_line:
  fixes AddReplacement :: "'r AddReplacementFn"
  assumes start: "getSpellingLoc (LocStart node) = FileLoc f s"
    and endloc: "getSpellingLoc (LocEnd node) = FileLoc f e"
    and buf: "Buffers sm f = Some buf"
    and s: "0 \<le> s" "s \<le> int (length buf)"
    and ls: "ls = line_start buf (nat s)"
    and te: "te = e + int (MeasureTokenLength sm f e)"
    and tokend: "int ls \<le> te"
    and k: "nat te \<le> k" "k < length buf" "buf ! k = CHR 0x0A"
    and first: "\<forall>j. nat te \<le> j \<and> j < k \<longrightarrow> buf ! j \<noteq> CHR 0x0A"
    and path: "path = (case FileEntries sm f of None \<Rightarrow> ''invalid-location'' | Some Entry \<Rightarrow> Entry)"
    and line: "line = take (k - ls) (drop ls buf)"
    and before: "before = \<lparr> FilePath = path, Offset = int ls, Length = 0,
                   ReplacementText = ''#if QT_VERSION < QT_VERSION_CHECK(5, 0, 0)\<newline>''
                                       @ line @ ''\<newline>#else\<newline>'' \<rparr>"
    and after: "after = \<lparr> FilePath = path, Offset = int k, Length = 0,
                   ReplacementText = ''\<newline>#endif'' \<rparr>"
  shows "insertIfdef AddReplacement sm node Replace =
           Inr (AddReplacement (getFileEntryForID sm f) after
                  (AddReplacement (getFileEntryForID sm f) before Replace))
       \<and> ls \<le> nat s
       \<and> (ls = 0 \<or> buf ! (ls - 1) = CHR 0x0A \<or> buf ! (ls - 1) = CHR 0x0D)
       \<and> (\<forall>j. ls \<le> j \<and> j < nat s \<longrightarrow> buf ! j \<noteq> CHR 0x0A \<and> buf ! j \<noteq> CHR 0x0D)
       \<and> (\<forall>d. int ls \<le> Offset d \<and> 0 \<le> Length d \<and> Offset d + Length d \<le> int k \<longrightarrow>
             applyReplacement before (applyReplacement d (applyReplacement after buf))
               = take ls buf
                   @ ''#if QT_VERSION < QT_VERSION_CHECK(5, 0, 0)\<newline>'' @ line @ ''\<newline>#else\<newline>''
                   @ applyReplacement (d\<lparr>Offset := Offset d - int ls\<rparr>) line
                   @ ''\<newline>#endif'' @ drop k buf)"
proof (intro conjI)
  show "insertIfdef AddReplacement sm node Replace =
           Inr (AddReplacement (getFileEntryForID sm f) after
                  (AddReplacement (getFileEntryForID sm f) before Replace))"
    using insertIfdef_wraps_general [OF start endloc buf s, of k AddReplacement Replace]
      tokend k first
    unfolding Replacement_at_FileLoc before after path line ls te by simp
  show "ls \<le> nat s" unfolding ls by (rule line_start_le)
  show "ls = 0 \<or> buf ! (ls - 1) = CHR 0x0A \<or> buf ! (ls - 1) = CHR 0x0D"
    unfolding ls by (rule line_start_after_break)
  show "\<forall>j. ls \<le> j \<and> j < nat s \<longrightarrow> buf ! j \<noteq> CHR 0x0A \<and> buf ! j \<noteq> CHR 0x0D"
    unfolding ls using line_start_no_break by blast
  show "\<forall>d. int ls \<le> Offset d \<and> 0 \<le> Length d \<and> Offset d + Length d \<le> int k \<longrightarrow>
             applyReplacement before (applyReplacement d (applyReplacement after buf))
               = take ls buf
                   @ ''#if QT_VERSION < QT_VERSION_CHECK(5, 0, 0)\<newline>'' @ line @ ''\<newline>#else\<newline>''
                   @ applyReplacement (d\<lparr>Offset := Offset d - int ls\<rparr>) line
                   @ ''\<newline>#endif'' @ drop k buf"
  proof (intro allI impI)
    fix d :: Replacement assume d: "int ls \<le> Offset d \<and> 0 \<le> Length d \<and> Offset d + Length d \<le> int k"
    have "applyReplacement before (applyReplacement d (applyReplacement after buf))
        = take ls buf
            @ (''#if QT_VERSION < QT_VERSION_CHECK(5, 0, 0)\<newline>'' @ line @ ''\<newline>#else\<newline>'')
            @ applyReplacement (d\<lparr>Offset := Offset d - int ls\<rparr>) (take (k - ls) (drop ls buf))
            @ ''\<newline>#endif'' @ drop k buf"
      unfolding before after
    proof (rule apply_wrapped)
      show "int ls \<le> Offset d" "0 \<le> Length d" "Offset d + Length d \<le> int k" using d by simp_all
      show "k \<le> length buf" using k(2) by simp
    qed
    then show "applyReplacement before (applyReplacement d (applyReplacement after buf))
                 = take ls buf
                     @ ''#if QT_VERSION < QT_VERSION_CHECK(5, 0, 0)\<newline>'' @ line @ ''\<newline>#else\<newline>''
                     @ applyReplacement (d\<lparr>Offset := Offset d - int ls\<rparr>) line
                     @ ''\<newline>#endif'' @ drop k buf"
      by (simp add: line)
  qed
qed

text \<open>
  The escape rule in the dual mode on the line \<^verbatim>\<open>  x = Qt::escape(str);\<close>: three edits, and
  the block they give.
\<close>

theorem insertIfdef_wraps_line_witness:
  "PortQtEscape4To5_run logReplacement (no_options\<lparr>CreateIfdefs := True\<rparr>) dual_match [] =
     Inr [(Some ''/src/a.cpp'', dual_direct), (Some ''/src/a.cpp'', dual_before),
          (Some ''/src/a.cpp'', dual_after)]
   \<and> applyReplacement dual_before (applyReplacement dual_direct (applyReplacement dual_after dual_buffer))
       = ''#if QT_VERSION < QT_VERSION_CHECK(5, 0, 0)\<newline>  x = Qt::escape(str);\<newline>#else\<newline>  x = str.toHtmlEscaped();\<newline>#endif\<newline>''"
proof -
  let ?Call = "\<lparr>LocStart = FileLoc 2 6, LocEnd = FileLoc 2 20\<rparr>"
  have start: "getSpellingLoc (LocStart ?Call) = FileLoc 2 6"
    and endloc: "getSpellingLoc (LocEnd ?Call) = FileLoc 2 20" by simp_all
  have buf: "Buffers dual_sm 2 = Some dual_buffer" by (simp add: dual_sm_def dual_buffer_def)
  have s: "(0::int) \<le> 6" "6 \<le> int (length dual_buffer)" by (simp_all add: dual_buffer_def)
  have ls: "0 = line_start dual_buffer (nat 6)" by (simp add: dual_buffer_def eval_nat_numeral)
  have te: "21 = 20 + int (MeasureTokenLength dual_sm 2 20)" by (simp add: dual_sm_def)
  have tokend: "int 0 \<le> 21" by simp
  have k: "nat 21 \<le> 22" "22 < length dual_buffer" "dual_buffer ! 22 = CHR 0x0A"
    by (simp_all add: dual_buffer_def)
  have first: "\<forall>j. nat 21 \<le> j \<and> j < 22 \<longrightarrow> dual_buffer ! j \<noteq> CHR 0x0A"
  proof (intro allI impI)
    fix j :: nat assume "nat 21 \<le> j \<and> j < 22"
    then have "j = 21" by simp
    then show "dual_buffer ! j \<noteq> CHR 0x0A" by (simp add: dual_buffer_def)
  qed
  have path: "''/src/a.cpp'' = (case FileEntries dual_sm 2 of None \<Rightarrow> ''invalid-location'' | Some Entry \<Rightarrow> Entry)"
    by (simp add: dual_sm_def)
  have line: "''  x = Qt::escape(str);'' = take (22 - 0) (drop 0 dual_buffer)"
    by (simp add: dual_buffer_def)
  have before: "dual_before = \<lparr> FilePath = ''/src/a.cpp'', Offset = int 0, Length = 0,
                   ReplacementText = ''#if QT_VERSION < QT_VERSION_CHECK(5, 0, 0)\<newline>''
                                       @ ''  x = Qt::escape(str);'' @ ''\<newline>#else\<newline>'' \<rparr>"
    by (simp add: dual_before_def)
  have after: "dual_after = \<lparr> FilePath = ''/src/a.cpp'', Offset = int 22, Length = 0,
                   ReplacementText = ''\<newline>#endif'' \<rparr>"
    by (simp add: dual_after_def)
  note wraps = insertIfdef_wraps_line [OF start endloc buf s ls te tokend k first path line before after,
      where AddReplacement = logReplacement and Replace = "[(Some ''/src/a.cpp'', dual_direct)]"]
  have ifdef: "insertIfdef logReplacement dual_sm ?Call [(Some ''/src/a.cpp'', dual_direct)] =
      Inr [(Some ''/src/a.cpp'', dual_direct), (Some ''/src/a.cpp'', dual_before),
           (Some ''/src/a.cpp'', dual_after)]"
    using wraps [THEN conjunct1]
    by (simp add: logReplacement_def getFileEntryForID_def dual_sm_def)
  have argtext: "getText dual_sm \<lparr>LocStart = FileLoc 2 17, LocEnd = FileLoc 2 17\<rparr> = Inr ''str''"
    by (simp add: getText_FileLoc dual_sm_def)
  have direct: "replaceNode logReplacement dual_sm ?Call ''str.toHtmlEscaped()'' [] =
      [(Some ''/src/a.cpp'', dual_direct)]"
    by (simp add: replaceNode_def Replacement_node_FileLoc logReplacement_def getFileEntryForID_def
          getFileID_def dual_sm_def dual_direct_def)
  have run: "PortQtEscape4To5_run logReplacement (no_options\<lparr>CreateIfdefs := True\<rparr>) dual_match [] =
      insertIfdef logReplacement dual_sm ?Call [(Some ''/src/a.cpp'', dual_direct)]"
    using direct
    by (simp add: PortQtEscape4To5_run_def Let_def getNodeAs_Expr_def getText_ptr_def dual_match_def
          argtext)
  have inside: "int 0 \<le> Offset dual_direct \<and> 0 \<le> Length dual_direct
      \<and> Offset dual_direct + Length dual_direct \<le> int 22"
    by (simp add: dual_direct_def)
  from wraps [THEN conjunct2, THEN conjunct2, THEN conjunct2, THEN conjunct2, rule_format, OF inside]
  have "applyReplacement dual_before (applyReplacement dual_direct (applyReplacement dual_after dual_buffer))
      = take 0 dual_buffer
          @ ''#if QT_VERSION < QT_VERSION_CHECK(5, 0, 0)\<newline>'' @ ''  x = Qt::escape(str);'' @ ''\<newline>#else\<newline>''
          @ applyReplacement (dual_direct\<lparr>Offset := Offset dual_direct - int 0\<rparr>) ''  x = Qt::escape(str);''
          @ ''\<newline>#endif'' @ drop 22 dual_buffer" .
  then have applied: "applyReplacement dual_before (applyReplacement dual_direct (applyReplacement dual_after dual_buffer))
       = ''#if QT_VERSION < QT_VERSION_CHECK(5, 0, 0)\<newline>  x = Qt::escape(str);\<newline>#else\<newline>  x = str.toHtmlEscaped();\<newline>#endif\<newline>''"
    by (simp add: dual_direct_def dual_buffer_def applyReplacement_def)
  from run ifdef applied show ?thesis by simp
qed

text \<open>
  C2 as stated fails: in the dual mode, the argument-removal rule accepts a match whose
  call starts in one file and ends in another (its two arguments are in one file) and
  registers its own edit, and \<open>insertIfdef\<close> returns at its check of the two files: one
  edit and no insertion.
\<close>

theorem insertIfdef_skipped_counterexample:
  "RemoveArgument_run logReplacement (no_options\<lparr>CreateIfdefs := True\<rparr>) include_match [] =
     Inr [(Some ''/src/rest.inc'',
           \<lparr>FilePath = ''/src/rest.inc'', Offset = 8, Length = 3, ReplacementText = []\<rparr>)]
   \<and> applyReplacement \<lparr>FilePath = ''/src/rest.inc'', Offset = 8, Length = 3, ReplacementText = []\<rparr>
         ''text(key, 0);\<newline>'' = ''text(key);\<newline>''"
proof -
  have "insertIfdef logReplacement include_sm \<lparr>LocStart = FileLoc 2 0, LocEnd = FileLoc 3 11\<rparr> R = Inr R"
    for R :: "(FileEntry option \<times> Replacement) list"
    by (simp add: insertIfdef_def Let_def getSpellingColumnNumber_def getCharacterData_def
          getFileID_def getFileOffset_def include_sm_def)
  then have "RemoveArgument_run logReplacement (no_options\<lparr>CreateIfdefs := True\<rparr>) include_match [] =
     Inr [(Some ''/src/rest.inc'',
           \<lparr>FilePath = ''/src/rest.inc'', Offset = 8, Length = 3, ReplacementText = []\<rparr>)]"
    by (simp add: RemoveArgument_run_def Let_def getNodeAs_Expr_def include_match_def
          Replacement_range_FileLoc getFileOffset_def getFileEntryForID_def logReplacement_def
          include_sm_def)
  moreover have "applyReplacement \<lparr>FilePath = ''/src/rest.inc'', Offset = 8, Length = 3, ReplacementText = []\<rparr>
         ''text(key, 0);\<newline>'' = ''text(key);\<newline>''"
    by (simp add: applyReplacement_def)
  ultimately show ?thesis by blast
qed

section \<open>The dispatch of main\<close>

lemma main_first_applicable:
  assumes "i < length spec_priority_order"
    and "spec_selector_applies opts (spec_priority_order ! i)"
    and "\<forall>j<i. \<not> spec_selector_applies opts (spec_priority_order ! j)"
  shows "main run opts True msg = Return (run (spec_priority_order ! i))"
proof -
  have "List.find (spec_selector_applies opts) spec_priority_order = Some (spec_priority_order ! i)"
    using assms by (auto simp: find_Some_iff)
  moreover have "main run opts True msg =
      Return (case List.find (spec_selector_applies opts) spec_priority_order of
                Some rs \<Rightarrow> run rs | None \<Rightarrow> 1)"
    by (simp add: main_def spec_priority_order_def)
  ultimately show ?thesis by simp
qed

lemma main_none_applicable:
  assumes "\<forall>rs. \<not> spec_selector_applies opts rs"
  shows "main run opts True msg = Return 1"
proof -
  have "\<not> spec_selector_applies opts rs" for rs using assms by blast
  from this [of portEnum] this [of portMethod] this [of portQMetaMethodSignature]
    this [of portQtEscape] this [of portAtomics] this [of portQImageText]
    this [of portViewDataChanged]
  show ?thesis by (auto simp: main_def)
qed

text \<open>
  C9, as amended. With the compilation database loaded, \<open>main\<close> reports no error for
  any combination of rule-selector options: it runs the first rule set, in the fixed
  priority order, whose selector applies, and exits with the result of that run; when no
  selector applies it exits with 1. (A run may return 1 itself, so the exit code 1 does
  not tell that no selector applied; it does when no run returns 1.)
\<close>

theorem main_priority_dispatch:
  "(\<forall>i<length spec_priority_order.
       spec_selector_applies opts (spec_priority_order ! i)
       \<and> (\<forall>j<i. \<not> spec_selector_applies opts (spec_priority_order ! j))
       \<longrightarrow> main run opts True msg = Return (run (spec_priority_order ! i)))
   \<and> ((\<forall>rs. \<not> spec_selector_applies opts rs) \<longrightarrow> main run opts True msg = Return 1)
   \<and> ((\<forall>rs. run rs \<noteq> 1) \<and> main run opts True msg = Return 1
        \<longrightarrow> (\<forall>rs. \<not> spec_selector_applies opts rs))"
proof (intro conjI allI impI)
  fix i
  assume "i < length spec_priority_order"
    and "spec_selector_applies opts (spec_priority_order ! i)
          \<and> (\<forall>j<i. \<not> spec_selector_applies opts (spec_priority_order ! j))"
  then show "main run opts True msg = Return (run (spec_priority_order ! i))"
    using main_first_applicable by blast
next
  assume "\<forall>rs. \<not> spec_selector_applies opts rs"
  then show "main run opts True msg = Return 1" by (rule main_none_applicable)
next
  fix rs
  assume a: "(\<forall>rs. run rs \<noteq> 1) \<and> main run opts True msg = Return 1"
  then have ne: "run r \<noteq> 1" for r by blast
  from a have "main run opts True msg = Return 1" by blast
  then have none: "RenameEnum opts = [] \<and> \<not> (Rename_Old opts \<noteq> [] \<and> Rename_New opts \<noteq> [])
      \<and> \<not> PortQMetaMethodSignature opts \<and> \<not> PortQtEscape opts \<and> \<not> PortAtomics opts
      \<and> \<not> Port_QImage_text opts \<and> \<not> Port_QAbstractItemView_dataChanged opts"
    using ne by (simp add: main_def split: if_splits)
  then show "\<not> spec_selector_applies opts rs" by (cases rs) auto
qed

text \<open>
  With both \<^verbatim>\<open>port-qt-escape\<close> and \<^verbatim>\<open>port-atomics\<close> given, the escape rule set (index 3 of
  the priority order) runs and its result is the exit code.
\<close>

theorem main_priority_dispatch_witness:
  "(3::nat) < length spec_priority_order
   \<and> spec_selector_applies (no_options\<lparr>PortQtEscape := True, PortAtomics := True\<rparr>)
        (spec_priority_order ! 3)
   \<and> main (\<lambda>rs. if rs = portQtEscape then 0 else 2)
        (no_options\<lparr>PortQtEscape := True, PortAtomics := True\<rparr>) True [] = Return 0
   \<and> main (\<lambda>rs. 0) no_options True [] = Return 1"
proof -
  let ?opts = "no_options\<lparr>PortQtEscape := True, PortAtomics := True\<rparr>"
  let ?run = "\<lambda>rs. if rs = portQtEscape then (0::int) else 2"
  note inst = main_priority_dispatch [of ?opts ?run "[]"]
  have len: "(3::nat) < length spec_priority_order" by (simp add: spec_priority_order_def)
  have nth: "spec_priority_order ! 3 = portQtEscape" by (simp add: spec_priority_order_def)
  have app: "spec_selector_applies ?opts (spec_priority_order ! 3)" by (simp add: nth no_options_def)
  have before: "\<forall>j<3. \<not> spec_selector_applies ?opts (spec_priority_order ! j)"
  proof (intro allI impI)
    fix j :: nat assume "j < 3"
    then have "j = 0 \<or> j = 1 \<or> j = 2" by auto
    then show "\<not> spec_selector_applies ?opts (spec_priority_order ! j)"
      by (auto simp: spec_priority_order_def no_options_def)
  qed
  from inst len app before have "main ?run ?opts True [] = Return (?run (spec_priority_order ! 3))"
    by blast
  then have r1: "main ?run ?opts True [] = Return 0" by (simp add: nth)
  have "\<forall>rs. \<not> spec_selector_applies no_options rs"
  proof
    fix rs show "\<not> spec_selector_applies no_options rs" by (cases rs) (simp_all add: no_options_def)
  qed
  with main_priority_dispatch [of no_options "\<lambda>rs. 0" "[]"]
  have r2: "main (\<lambda>rs. 0) no_options True [] = Return 1" by blast
  from len app r1 r2 show ?thesis by blast
qed

text \<open>
  C9 as stated fails: a selector applies and the exit code is 1, because the run of the
  selected rule set returned 1.
\<close>

theorem main_exit_1_counterexample:
  "main (\<lambda>rs. 1) (no_options\<lparr>PortQtEscape := True\<rparr>) True [] = Return 1
   \<and> spec_selector_applies (no_options\<lparr>PortQtEscape := True\<rparr>) portQtEscape"
  by (simp add: main_def no_options_def)

end
